theory Spec2Isabelle
  imports
    Complex_Main
    "HOL-Library.Multiset"
    "HOL-Library.Char_ord"
    "HOL-Library.List_Lexorder"
    "HOL-Library.Product_Lexorder"
begin

section \<open>Tables of pingtop\_recs.py\<close>

text \<open>
  The script works on three pandas tables. A table is a list of rows, a row a record, and
  a cell that pandas may hold as NaN/NaT is an \<open>option\<close> (\<open>None\<close> is NaN). The id columns
  are cast with \<open>astype(str)\<close>, so they are plain strings. Python floats are read as
  reals: rounding, overflow and the infinities are outside the model. The one place where
  the script can produce an infinity is \<open>watch_time_sec / duration_sec\<close> with a zero
  duration; statements about scores therefore name the durations they cover.
  Timestamps are integers counting nanoseconds, as in \<open>datetime64[ns]\<close>.
\<close>

record interaction =
  ev_user_id :: string
  ev_ping_id :: string
  ev_event_type :: "string option"
  ev_watch_time_sec :: "real option"
  ev_event_timestamp :: "int option"

record ping =
  pg_ping_id :: string
  pg_creator_id :: "string option"
  pg_main_hashtag :: "string option"
  pg_category :: "string option"
  pg_duration_sec :: "real option"
  pg_created_at :: "int option"

text \<open>\<open>fillna\<close> on one cell.\<close>

definition fillna :: "'a \<Rightarrow> 'a option \<Rightarrow> 'a" where
  "fillna d c = (case c of None \<Rightarrow> d | Some v \<Rightarrow> v)"

subsection \<open>Duration fallback (lines 57--60)\<close>

text \<open>
  \<open>Series.median\<close> skips NaN; on an even number of values it is the mean of the two
  middle ones. It is only called here when at least one duration is known.
\<close>

definition median :: "real list \<Rightarrow> real" where
  "median xs =
     (let s = sort xs; n = length s
      in if odd n then s ! (n div 2) else (s ! (n div 2 - 1) + s ! (n div 2)) / 2)"

definition known_durations :: "ping list \<Rightarrow> real list" where
  "known_durations pings = concat (map (\<lambda>p. case pg_duration_sec p of None \<Rightarrow> [] | Some d \<Rightarrow> [d]) pings)"

definition fill_duration :: "ping list \<Rightarrow> ping list" where
  "fill_duration pings =
     (if known_durations pings = []
      then map (\<lambda>p. p\<lparr>pg_duration_sec := Some 30\<rparr>) pings
      else map (\<lambda>p. p\<lparr>pg_duration_sec := Some (fillna (median (known_durations pings)) (pg_duration_sec p))\<rparr>) pings)"

subsection \<open>Event scoring (lines 70--92)\<close>

text \<open>
  A row of \<open>inter\<close> after line 73: the event, the duration joined from the catalog and
  the watch-time ratio. The left merge on \<open>ping_id\<close> yields one row per matching catalog
  row, and one row with a NaN duration when nothing matches.
\<close>

record inter_row =
  in_user_id :: string
  in_ping_id :: string
  in_event_type :: "string option"
  in_watch_time_sec :: real
  in_event_timestamp :: "int option"
  in_duration_sec :: real
  in_watch_time_ratio :: "real option"

text \<open>
  \<open>np.where(event_type == 'view', watch / duration, nan)\<close>. In numpy \<open>0 / 0\<close> is NaN;
  \<open>w / 0\<close> with \<open>w \<noteq> 0\<close> is an infinity, which the reals do not have: the model is
  meant for \<open>d \<noteq> 0\<close> there.
\<close>

definition watch_time_ratio :: "string option \<Rightarrow> real \<Rightarrow> real \<Rightarrow> real option" where
  "watch_time_ratio et w d =
     (if et = Some ''view'' then (if d = 0 \<and> w = 0 then None else Some (w / d)) else None)"

definition mk_inter_row :: "interaction \<Rightarrow> real option \<Rightarrow> inter_row" where
  "mk_inter_row e dur =
     (let w = fillna 0 (ev_watch_time_sec e); d = fillna 30 dur
      in \<lparr> in_user_id = ev_user_id e, in_ping_id = ev_ping_id e,
           in_event_type = ev_event_type e, in_watch_time_sec = w,
           in_event_timestamp = ev_event_timestamp e, in_duration_sec = d,
           in_watch_time_ratio = watch_time_ratio (ev_event_type e) w d \<rparr>)"

text \<open>
  Left merge of one event with the catalog's \<open>(ping_id, duration_sec)\<close> columns, and the
  table \<open>inter\<close> after the merge (\<open>inter_tbl\<close> here: \<open>inter\<close> is the intersection of sets
  in HOL).
\<close>

definition merge_duration :: "ping list \<Rightarrow> interaction \<Rightarrow> inter_row list" where
  "merge_duration pings e =
     (case filter (\<lambda>p. pg_ping_id p = ev_ping_id e) pings of
        [] \<Rightarrow> [mk_inter_row e None]
      | ms \<Rightarrow> map (\<lambda>p. mk_inter_row e (pg_duration_sec p)) ms)"

definition inter_tbl :: "ping list \<Rightarrow> interaction list \<Rightarrow> inter_row list" where
  "inter_tbl pings raw = concat (map (merge_duration pings) raw)"

text \<open>The \<open>weights\<close> dictionary, in the order it is written.\<close>

definition weights :: "(string \<times> real) list" where
  "weights = [(''view'', 1.0), (''like'', 2.0), (''comment'', 3.0), (''share'', 4.0),
              (''follow_creator'', 2.0), (''impression'', 0.1)]"

text \<open>\<open>weights.get(et, 0.0)\<close>; a NaN event type is no key of the dictionary.\<close>

definition weights_get :: "string option \<Rightarrow> real" where
  "weights_get et = (case et of None \<Rightarrow> 0 | Some s \<Rightarrow> fillna 0 (map_of weights s))"

definition event_score :: "inter_row \<Rightarrow> real" where
  "event_score row =
     (if in_event_type row = Some ''view''
      then the (map_of weights ''view'') * fillna 0 (in_watch_time_ratio row)
      else weights_get (in_event_type row))"

section \<open>Aggregator (lines 95--105)\<close>

text \<open>
  \<open>groupby\<close> sorts the group keys ascending; every key column here is a string column
  without NaN. Strings are compared as Python compares them, character by character.
\<close>

definition group_keys :: "('r \<Rightarrow> 'k::linorder) \<Rightarrow> 'r list \<Rightarrow> 'k list" where
  "group_keys key rows = sort (remdups (map key rows))"

text \<open>\<open>max\<close> of a timestamp column, skipping NaT; NaT when nothing is known.\<close>

fun max_ts :: "int option list \<Rightarrow> int option" where
  "max_ts [] = None"
| "max_ts (None # ts) = max_ts ts"
| "max_ts (Some t # ts) = (case max_ts ts of None \<Rightarrow> Some t | Some m \<Rightarrow> Some (max t m))"

record user_ping_row =
  up_user_id :: string
  up_ping_id :: string
  up_engagement_score :: real
  up_last_ts :: "int option"
  up_n_events :: nat

definition user_ping :: "inter_row list \<Rightarrow> user_ping_row list" where
  "user_ping rows =
     map (\<lambda>(u, p).
            let g = filter (\<lambda>r. in_user_id r = u \<and> in_ping_id r = p) rows
            in \<lparr> up_user_id = u, up_ping_id = p,
                 up_engagement_score = sum_list (map event_score g),
                 up_last_ts = max_ts (map in_event_timestamp g),
                 up_n_events = length (filter (\<lambda>r. in_event_type r \<noteq> None) g) \<rparr>)
         (group_keys (\<lambda>r. (in_user_id r, in_ping_id r)) rows)"

record ping_global_row =
  gl_ping_id :: string
  gl_global_engagement :: real
  gl_users_interacted :: nat

text \<open>The second \<open>groupby\<close>, before \<open>sort_values\<close>: one row per ping, by ascending id.\<close>

definition ping_global_groups :: "user_ping_row list \<Rightarrow> ping_global_row list" where
  "ping_global_groups up =
     map (\<lambda>p.
            let g = filter (\<lambda>r. up_ping_id r = p) up
            in \<lparr> gl_ping_id = p,
                 gl_global_engagement = sum_list (map up_engagement_score g),
                 gl_users_interacted = length (remdups (map up_user_id g)) \<rparr>)
         (group_keys up_ping_id up)"

text \<open>
  \<open>sort_values(col, ascending=False)\<close> is called with pandas' default
  \<open>kind='quicksort'\<close>, which promises a descending permutation of the rows and nothing
  about rows with equal keys. The sort is therefore an argument \<open>srt\<close> of every
  function that sorts, and \<open>sorts_descending\<close> is what pandas promises of it.
\<close>

definition sorts_descending :: "('r \<Rightarrow> real) \<Rightarrow> ('r list \<Rightarrow> 'r list) \<Rightarrow> bool" where
  "sorts_descending key srt \<longleftrightarrow>
     (\<forall>xs. mset (srt xs) = mset xs \<and> sorted_wrt (\<lambda>a b. key a \<ge> key b) (srt xs))"

text \<open>Two sorts that keep the promise: a stable one, and one that reverses equal keys.\<close>

definition stable_sort_desc :: "('r \<Rightarrow> real) \<Rightarrow> 'r list \<Rightarrow> 'r list" where
  "stable_sort_desc key xs = sort_key (\<lambda>r. - key r) xs"


definition ping_global :: "(ping_global_row list \<Rightarrow> ping_global_row list) \<Rightarrow> user_ping_row list \<Rightarrow> ping_global_row list" where
  "ping_global srt up = srt (ping_global_groups up)"

section \<open>Item features (lines 148--157)\<close>

record item =
  it_ping :: ping
  it_global_pop :: real
  it_global_pop_norm :: real
  it_age_days :: real
  it_freshness :: real

text \<open>\<open>Series.max\<close> and \<open>Series.min\<close>: NaN on an empty column.\<close>

definition col_max :: "'a::linorder list \<Rightarrow> 'a option" where
  "col_max xs = (case xs of [] \<Rightarrow> None | y # ys \<Rightarrow> Some (fold max ys y))"

definition col_min :: "'a::linorder list \<Rightarrow> 'a option" where
  "col_min xs = (case xs of [] \<Rightarrow> None | y # ys \<Rightarrow> Some (fold min ys y))"

text \<open>\<open>items['ping_id'].map(ping_global.set_index('ping_id')['global_engagement']).fillna(0.0)\<close>\<close>

definition global_pop :: "ping_global_row list \<Rightarrow> string \<Rightarrow> real" where
  "global_pop pgl pid = fillna 0 (map_of (map (\<lambda>g. (gl_ping_id g, gl_global_engagement g)) pgl) pid)"

text \<open>
  Lines 150--153. A comparison with NaN is false, so an empty catalog takes the
  \<open>else\<close> branch.
\<close>

definition global_pop_norm :: "real list \<Rightarrow> real \<Rightarrow> real" where
  "global_pop_norm pops x =
     (case (col_max pops, col_min pops) of
        (Some mx, Some mn) \<Rightarrow> if mx > mn then (x - mn) / (mx - mn) else 0
      | _ \<Rightarrow> 0)"

definition ns_per_day :: int where
  "ns_per_day = 86400 * 1000000000"

text \<open>\<open>pd.to_datetime('2024-02-20')\<close>: day 19773 after 1970-01-01.\<close>

definition fallback_now :: int where
  "fallback_now = 19773 * ns_per_day"

definition known_created :: "ping list \<Rightarrow> int list" where
  "known_created pings = concat (map (\<lambda>p. case pg_created_at p of None \<Rightarrow> [] | Some t \<Rightarrow> [t]) pings)"

definition now :: "ping list \<Rightarrow> int" where
  "now pings = (case col_max (known_created pings) of None \<Rightarrow> fallback_now | Some t \<Rightarrow> t)"

text \<open>\<open>(now - created_at).dt.days.fillna(30)\<close>: whole days, rounded down.\<close>

definition age_days :: "int \<Rightarrow> int option \<Rightarrow> real" where
  "age_days nw c = (case c of None \<Rightarrow> 30 | Some t \<Rightarrow> of_int ((nw - t) div ns_per_day))"

definition freshness :: "real \<Rightarrow> real" where
  "freshness age = 1 / (1 + age)"

definition items :: "ping list \<Rightarrow> ping_global_row list \<Rightarrow> item list" where
  "items pings pgl =
     (let pops = map (\<lambda>p. global_pop pgl (pg_ping_id p)) pings; nw = now pings
      in map (\<lambda>p. let gp = global_pop pgl (pg_ping_id p); age = age_days nw (pg_created_at p)
                  in \<lparr> it_ping = p, it_global_pop = gp,
                       it_global_pop_norm = global_pop_norm pops gp,
                       it_age_days = age, it_freshness = freshness age \<rparr>) pings)"

section \<open>User affinities (lines 160--168)\<close>

text \<open>
  \<open>int_meta\<close>: the left merge of \<open>inter\<close> with the catalog columns of \<open>items\<close>. An event
  whose ping is not in the catalog keeps its row, with NaN in the three joined columns.
\<close>

record int_meta_row =
  im_inter :: inter_row
  im_category :: "string option"
  im_main_hashtag :: "string option"
  im_creator_id :: "string option"

definition merge_meta :: "item list \<Rightarrow> inter_row \<Rightarrow> int_meta_row list" where
  "merge_meta its r =
     (case filter (\<lambda>i. pg_ping_id (it_ping i) = in_ping_id r) its of
        [] \<Rightarrow> [\<lparr> im_inter = r, im_category = None, im_main_hashtag = None, im_creator_id = None \<rparr>]
      | ms \<Rightarrow> map (\<lambda>i. \<lparr> im_inter = r, im_category = pg_category (it_ping i),
                          im_main_hashtag = pg_main_hashtag (it_ping i),
                          im_creator_id = pg_creator_id (it_ping i) \<rparr>) ms)"

definition int_meta :: "item list \<Rightarrow> inter_row list \<Rightarrow> int_meta_row list" where
  "int_meta its rows = concat (map (merge_meta its) rows)"

text \<open>\<open>groupby(keys).size()\<close> on the list of the rows' keys: one count per key, keys ascending.\<close>

definition group_size :: "'k::linorder list \<Rightarrow> ('k \<times> nat) list" where
  "group_size ks = map (\<lambda>k. (k, length (filter (\<lambda>x. x = k) ks))) (sort (remdups ks))"

text \<open>
  A \<open>groupby\<close> drops the rows with NaN in a key column: the keys of the rows that stay,
  for the key pair \<open>(user_id, col)\<close>.
\<close>

definition known_pairs :: "(int_meta_row \<Rightarrow> string option) \<Rightarrow> int_meta_row list \<Rightarrow> (string \<times> string) list" where
  "known_pairs col im =
     concat (map (\<lambda>r. case col r of None \<Rightarrow> [] | Some c \<Rightarrow> [(in_user_id (im_inter r), c)]) im)"

text \<open>\<open>user_total\<close> groups by \<open>user_id\<close> alone, so it counts every row of \<open>int_meta\<close>.\<close>

definition user_total :: "int_meta_row list \<Rightarrow> (string \<times> nat) list" where
  "user_total im = group_size (map (\<lambda>r. in_user_id (im_inter r)) im)"

record affinity_row =
  af_user_id :: string
  af_key :: string
  af_count :: nat
  af_total :: nat
  af_affinity :: real

text \<open>The inner merge with \<open>user_total\<close> on \<open>user_id\<close>, then \<open>count / total\<close>.\<close>

definition merge_total :: "((string \<times> string) \<times> nat) list \<Rightarrow> (string \<times> nat) list \<Rightarrow> affinity_row list" where
  "merge_total counts totals =
     concat (map (\<lambda>((u, c), n).
                    map (\<lambda>(u', t). \<lparr> af_user_id = u, af_key = c, af_count = n, af_total = t,
                                      af_affinity = real n / real t \<rparr>)
                        (filter (\<lambda>(u', t). u' = u) totals))
                 counts)"

definition user_cat :: "int_meta_row list \<Rightarrow> affinity_row list" where
  "user_cat im = merge_total (group_size (known_pairs im_category im)) (user_total im)"

definition user_creator :: "int_meta_row list \<Rightarrow> affinity_row list" where
  "user_creator im = merge_total (group_size (known_pairs im_creator_id im)) (user_total im)"

section \<open>The script's tables\<close>

record tables =
  t_pings :: "ping list"
  t_inter :: "inter_row list"
  t_user_ping :: "user_ping_row list"
  t_ping_global :: "ping_global_row list"
  t_items :: "item list"
  t_int_meta :: "int_meta_row list"
  t_user_cat :: "affinity_row list"
  t_user_creator :: "affinity_row list"

definition pipeline :: "(ping_global_row list \<Rightarrow> ping_global_row list) \<Rightarrow> ping list \<Rightarrow> interaction list \<Rightarrow> tables" where
  "pipeline srt raw_pings raw_inter =
     (let pings = fill_duration raw_pings;
          rows = inter_tbl pings raw_inter;
          up = user_ping rows;
          pgl = ping_global srt up;
          its = items pings pgl;
          im = int_meta its rows
      in \<lparr> t_pings = pings, t_inter = rows, t_user_ping = up, t_ping_global = pgl,
           t_items = its, t_int_meta = im, t_user_cat = user_cat im,
           t_user_creator = user_creator im \<rparr>)"

section \<open>Recommender (lines 171--192)\<close>

record scored_item =
  sc_item :: item
  sc_user_cat_aff :: real
  sc_user_cre_aff :: real
  sc_score :: real

record recommendation =
  rc_ping_id :: string
  rc_score :: real
  rc_category :: "string option"
  rc_main_hashtag :: "string option"
  rc_creator_id :: "string option"
  rc_reason :: string

text \<open>The affinity dictionary of one user: \<open>{}\<close> when the table is empty.\<close>

definition affinity_dict :: "affinity_row list \<Rightarrow> string \<Rightarrow> (string \<times> real) list" where
  "affinity_dict tab uid =
     (if tab \<noteq> [] then map (\<lambda>r. (af_key r, af_affinity r)) (filter (\<lambda>r. af_user_id r = uid) tab)
      else [])"

text \<open>\<open>df[col].map(d).fillna(0.0)\<close> on one cell; a NaN cell is no key.\<close>

definition map_fillna :: "(string \<times> real) list \<Rightarrow> string option \<Rightarrow> real" where
  "map_fillna d c = (case c of None \<Rightarrow> 0 | Some k \<Rightarrow> fillna 0 (map_of d k))"

definition score_item :: "(string \<times> real) list \<Rightarrow> (string \<times> real) list \<Rightarrow> real \<Rightarrow> real \<Rightarrow> real \<Rightarrow> real \<Rightarrow> item \<Rightarrow> scored_item" where
  "score_item ucat ucre alpha beta gamma delta i =
     (let ca = map_fillna ucat (pg_category (it_ping i));
          cr = map_fillna ucre (pg_creator_id (it_ping i))
      in \<lparr> sc_item = i, sc_user_cat_aff = ca, sc_user_cre_aff = cr,
           sc_score = alpha * it_global_pop_norm i + beta * ca + gamma * cr + delta * it_freshness i \<rparr>)"

text \<open>\<open>inter[inter['user_id']==uid]['ping_id'].unique()\<close>, used only for membership.\<close>

definition seen :: "inter_row list \<Rightarrow> string \<Rightarrow> string list" where
  "seen rows uid = remdups (map in_ping_id (filter (\<lambda>r. in_user_id r = uid) rows))"

text \<open>\<open>DataFrame.head(n)\<close>: the first \<open>n\<close> rows, and all but the last \<open>-n\<close> for a negative \<open>n\<close>.\<close>

definition head :: "int \<Rightarrow> 'a list \<Rightarrow> 'a list" where
  "head n xs = (if 0 \<le> n then take (nat n) xs else take (length xs - nat (- n)) xs)"

text \<open>The rows of \<open>df\<close> before the seen filter, after it, and after line 181.\<close>

definition scored :: "tables \<Rightarrow> string \<Rightarrow> real \<Rightarrow> real \<Rightarrow> real \<Rightarrow> real \<Rightarrow> scored_item list" where
  "scored T uid alpha beta gamma delta =
     map (score_item (affinity_dict (t_user_cat T) uid) (affinity_dict (t_user_creator T) uid)
            alpha beta gamma delta) (t_items T)"

definition unseen :: "tables \<Rightarrow> string \<Rightarrow> real \<Rightarrow> real \<Rightarrow> real \<Rightarrow> real \<Rightarrow> scored_item list" where
  "unseen T uid alpha beta gamma delta =
     filter (\<lambda>r. pg_ping_id (it_ping (sc_item r)) \<notin> set (seen (t_inter T) uid))
       (scored T uid alpha beta gamma delta)"

definition top_rows :: "(scored_item list \<Rightarrow> scored_item list) \<Rightarrow> tables \<Rightarrow> string \<Rightarrow> int \<Rightarrow> real \<Rightarrow> real \<Rightarrow> real \<Rightarrow> real \<Rightarrow> scored_item list" where
  "top_rows srt T uid topk alpha beta gamma delta = head topk (srt (unseen T uid alpha beta gamma delta))"

text \<open>\<open>"; ".join(parts)\<close>\<close>

fun join :: "string \<Rightarrow> string list \<Rightarrow> string" where
  "join sep [] = []"
| "join sep [x] = x"
| "join sep (x # y # ys) = x @ sep @ join sep (y # ys)"

text \<open>An f-string prints a NaN cell as \<open>nan\<close>.\<close>

definition str_cell :: "string option \<Rightarrow> string" where
  "str_cell c = (case c of None \<Rightarrow> ''nan'' | Some s \<Rightarrow> s)"

text \<open>The body of the reason loop: \<open>parts\<close> grows by one \<open>append\<close> per test that holds.\<close>

definition reason :: "scored_item \<Rightarrow> string" where
  "reason r =
     (let parts0 = [];
          parts1 = (if sc_user_cat_aff r > 0
                    then parts0 @ [''prefers cat='' @ str_cell (pg_category (it_ping (sc_item r)))]
                    else parts0);
          parts2 = (if sc_user_cre_aff r > 0 then parts1 @ [''engaged this creator''] else parts1);
          parts3 = (if it_global_pop_norm (sc_item r) > 0.5 then parts2 @ [''globally popular''] else parts2);
          parts4 = (if it_freshness (sc_item r) > 0.02 then parts3 @ [''recent''] else parts3)
      in if parts4 \<noteq> [] then join ''; '' parts4 else ''popular/new'')"

definition to_recommendation :: "scored_item \<Rightarrow> recommendation" where
  "to_recommendation r =
     \<lparr> rc_ping_id = pg_ping_id (it_ping (sc_item r)), rc_score = sc_score r,
       rc_category = pg_category (it_ping (sc_item r)),
       rc_main_hashtag = pg_main_hashtag (it_ping (sc_item r)),
       rc_creator_id = pg_creator_id (it_ping (sc_item r)), rc_reason = reason r \<rparr>"

definition recommend_for_user :: "(scored_item list \<Rightarrow> scored_item list) \<Rightarrow> tables \<Rightarrow> string \<Rightarrow> int \<Rightarrow> real \<Rightarrow> real \<Rightarrow> real \<Rightarrow> real \<Rightarrow> recommendation list" where
  "recommend_for_user srt T uid topk alpha beta gamma delta =
     map to_recommendation (top_rows srt T uid topk alpha beta gamma delta)"

section \<open>Properties of the tables\<close>






text \<open>The catalog's known durations are positive, as the data model has them.\<close>

definition durations_positive :: "ping list \<Rightarrow> bool" where
  "durations_positive P \<longleftrightarrow>
     list_all (\<lambda>p. case pg_duration_sec p of None \<Rightarrow> True | Some d \<Rightarrow> 0 < d) P"

text \<open>
  The reference date as the spec words it: the latest known \<open>created_at\<close> of the
  catalog, and the fixed date when none is known.
\<close>

definition reference_now :: "ping list \<Rightarrow> int" where
  "reference_now P = (if known_created P = [] then fallback_now else Max (set (known_created P)))"

text \<open>
  A small run of the script: three pings, one of them never interacted with and one
  without a duration; user \<open>u1\<close> views \<open>p1\<close> and likes a ping \<open>p9\<close> that is not in the
  catalog, user \<open>u2\<close> watches \<open>p2\<close> three times over.
\<close>

definition ex_pings :: "ping list" where
  "ex_pings =
     [\<lparr> pg_ping_id = ''p1'', pg_creator_id = Some ''c1'', pg_main_hashtag = Some ''h'',
        pg_category = Some ''a'', pg_duration_sec = Some 30, pg_created_at = Some (10 * ns_per_day) \<rparr>,
      \<lparr> pg_ping_id = ''p2'', pg_creator_id = Some ''c2'', pg_main_hashtag = Some ''h'',
        pg_category = Some ''b'', pg_duration_sec = None, pg_created_at = Some (3 * ns_per_day + 5) \<rparr>,
      \<lparr> pg_ping_id = ''p3'', pg_creator_id = Some ''c2'', pg_main_hashtag = None,
        pg_category = Some ''b'', pg_duration_sec = Some 10, pg_created_at = None \<rparr>]"

definition ex_events :: "interaction list" where
  "ex_events =
     [\<lparr> ev_user_id = ''u1'', ev_ping_id = ''p1'', ev_event_type = Some ''view'',
        ev_watch_time_sec = Some 15, ev_event_timestamp = None \<rparr>,
      \<lparr> ev_user_id = ''u1'', ev_ping_id = ''p9'', ev_event_type = Some ''like'',
        ev_watch_time_sec = None, ev_event_timestamp = Some 5 \<rparr>,
      \<lparr> ev_user_id = ''u2'', ev_ping_id = ''p2'', ev_event_type = Some ''view'',
        ev_watch_time_sec = Some 60, ev_event_timestamp = Some 7 \<rparr>]"

definition ex_tables :: tables where
  "ex_tables = pipeline (stable_sort_desc gl_global_engagement) ex_pings ex_events"

definition ex_item_p1 :: item where
  "ex_item_p1 =
     \<lparr> it_ping = \<lparr> pg_ping_id = ''p1'', pg_creator_id = Some ''c1'', pg_main_hashtag = Some ''h'',
                   pg_category = Some ''a'', pg_duration_sec = Some 30,
                   pg_created_at = Some (10 * ns_per_day) \<rparr>,
       it_global_pop = 1 / 2, it_global_pop_norm = 1 / 6, it_age_days = 0, it_freshness = 1 \<rparr>"

definition ex_item_p2 :: item where
  "ex_item_p2 =
     \<lparr> it_ping = \<lparr> pg_ping_id = ''p2'', pg_creator_id = Some ''c2'', pg_main_hashtag = Some ''h'',
                   pg_category = Some ''b'', pg_duration_sec = Some 20,
                   pg_created_at = Some (3 * ns_per_day + 5) \<rparr>,
       it_global_pop = 3, it_global_pop_norm = 1, it_age_days = 6, it_freshness = 1 / 7 \<rparr>"

definition ex_item_p3 :: item where
  "ex_item_p3 =
     \<lparr> it_ping = \<lparr> pg_ping_id = ''p3'', pg_creator_id = Some ''c2'', pg_main_hashtag = None,
                   pg_category = Some ''b'', pg_duration_sec = Some 10, pg_created_at = None \<rparr>,
       it_global_pop = 0, it_global_pop_norm = 0, it_age_days = 30, it_freshness = 1 / 31 \<rparr>"

text \<open>
  The reason as the spec words it: four conditions with their labels, in a fixed order;
  the labels of the true ones are joined, and a fallback label stands for none.
\<close>

definition reason_conditions :: "scored_item \<Rightarrow> (bool \<times> string) list" where
  "reason_conditions r =
     [(sc_user_cat_aff r > 0, ''prefers cat='' @ str_cell (pg_category (it_ping (sc_item r)))),
      (sc_user_cre_aff r > 0, ''engaged this creator''),
      (it_global_pop_norm (sc_item r) > 0.5, ''globally popular''),
      (it_freshness (sc_item r) > 0.02, ''recent'')]"

definition reason_labels :: "scored_item \<Rightarrow> string list" where
  "reason_labels r = map snd (filter fst (reason_conditions r))"

definition reason_by_spec :: "scored_item \<Rightarrow> string" where
  "reason_by_spec r = (if reason_labels r = [] then ''popular/new'' else join ''; '' (reason_labels r))"

text \<open>The pings a user has an event on, and the catalog items that are not among them.\<close>

definition interacted :: "interaction list \<Rightarrow> string \<Rightarrow> string set" where
  "interacted E uid = set (map ev_ping_id (filter (\<lambda>e. ev_user_id e = uid) E))"

definition remaining :: "tables \<Rightarrow> interaction list \<Rightarrow> string \<Rightarrow> item list" where
  "remaining T E uid = filter (\<lambda>i. pg_ping_id (it_ping i) \<notin> interacted E uid) (t_items T)"

text \<open>Two scored rows: one that meets all four conditions of the reason, one that meets none.\<close>

definition ex_scored_hot :: scored_item where
  "ex_scored_hot = \<lparr> sc_item = ex_item_p2, sc_user_cat_aff = 1, sc_user_cre_aff = 1 / 2, sc_score = 1 \<rparr>"

definition ex_scored_stale :: scored_item where
  "ex_scored_stale =
     \<lparr> sc_item = ex_item_p3\<lparr> it_age_days := 49, it_freshness := 1 / 50 \<rparr>,
       sc_user_cat_aff = 0, sc_user_cre_aff = 0, sc_score = 1 / 500 \<rparr>"

text \<open>
  The sum of one user's affinities in a table, and the user's rows of \<open>int_meta\<close>.
\<close>

definition affinity_sum :: "affinity_row list \<Rightarrow> string \<Rightarrow> real" where
  "affinity_sum tab u = sum_list (map af_affinity (filter (\<lambda>r. af_user_id r = u) tab))"

definition user_rows :: "int_meta_row list \<Rightarrow> string \<Rightarrow> int_meta_row list" where
  "user_rows im u = filter (\<lambda>r. in_user_id (im_inter r) = u) im"

section \<open>Event scorer: properties\<close>

lemma weights_get_simps:
  "weights_get None = 0"
  "weights_get (Some ''view'') = 1"
  "weights_get (Some ''like'') = 2"
  "weights_get (Some ''comment'') = 3"
  "weights_get (Some ''share'') = 4"
  "weights_get (Some ''follow_creator'') = 2"
  "weights_get (Some ''impression'') = 1 / 10"
  by (simp_all add: weights_get_def weights_def fillna_def)

lemma weights_get_unknown:
  "s \<notin> set (map fst weights) \<Longrightarrow> weights_get (Some s) = 0"
  by (simp add: weights_get_def weights_def fillna_def)

lemma weights_get_nonneg: "0 \<le> weights_get et"
  by (cases et) (auto simp: weights_get_def weights_def fillna_def)

lemma event_score_view:
  "ev_event_type e = Some ''view'' \<Longrightarrow>
   event_score (mk_inter_row e dur) =
     (let w = fillna 0 (ev_watch_time_sec e); d = fillna 30 dur
      in if d = 0 \<and> w = 0 then 0 else 1 * (w / d))"
  by (simp add: event_score_def mk_inter_row_def watch_time_ratio_def weights_def fillna_def Let_def)

lemma event_score_other:
  "ev_event_type e \<noteq> Some ''view'' \<Longrightarrow>
   event_score (mk_inter_row e dur) = weights_get (ev_event_type e)"
  by (simp add: event_score_def mk_inter_row_def Let_def)

lemma merge_duration_mk:
  "r \<in> set (merge_duration pings e) \<Longrightarrow> \<exists>dur. r = mk_inter_row e dur"
  by (cases "filter (\<lambda>p. pg_ping_id p = ev_ping_id e) pings") (auto simp: merge_duration_def)

lemma inter_rows_mk:
  "r \<in> set (inter_tbl pings E) \<Longrightarrow> \<exists>e \<in> set E. \<exists>dur. r = mk_inter_row e dur"
proof -
  assume "r \<in> set (inter_tbl pings E)"
  then obtain e where e: "e \<in> set E" "r \<in> set (merge_duration pings e)"
    by (auto simp: inter_tbl_def)
  from merge_duration_mk [OF e(2)] e(1) show ?thesis by blast
qed

text \<open>
  Claim C4. Every row of \<open>inter\<close> is \<open>mk_inter_row e dur\<close> for an event \<open>e\<close> and the
  duration cell \<open>dur\<close> joined to it; its watch time is \<open>fillna 0\<close> of the event's and its
  resolved duration \<open>fillna 30 dur\<close>. With a watch time \<open>\<ge> 0\<close> and a resolved duration
  \<open>> 0\<close> the score is \<open>\<ge> 0\<close>; a view scores the view weight \<open>1.0\<close> times watch time over
  duration, which is \<open>0\<close> when the watch time is missing; like, comment, share,
  follow\_creator and impression score \<open>2.0\<close>, \<open>3.0\<close>, \<open>4.0\<close>, \<open>2.0\<close> and \<open>0.1\<close>; every
  event type that is no key of \<open>weights\<close> (a missing one too) scores \<open>0.0\<close>. The function
  is total: no input makes it fail.
\<close>

theorem event_score_spec:
  "(0 \<le> fillna 0 (ev_watch_time_sec e) \<and> 0 < fillna 30 dur \<longrightarrow> 0 \<le> event_score (mk_inter_row e dur))
   \<and> (ev_event_type e = Some ''view'' \<and> 0 < fillna 30 dur \<longrightarrow>
        event_score (mk_inter_row e dur) = 1.0 * (fillna 0 (ev_watch_time_sec e) / fillna 30 dur))
   \<and> (ev_event_type e = Some ''view'' \<and> ev_watch_time_sec e = None \<and> 0 < fillna 30 dur \<longrightarrow>
        event_score (mk_inter_row e dur) = 0)
   \<and> (ev_event_type e = Some ''like'' \<longrightarrow> event_score (mk_inter_row e dur) = 2.0)
   \<and> (ev_event_type e = Some ''comment'' \<longrightarrow> event_score (mk_inter_row e dur) = 3.0)
   \<and> (ev_event_type e = Some ''share'' \<longrightarrow> event_score (mk_inter_row e dur) = 4.0)
   \<and> (ev_event_type e = Some ''follow_creator'' \<longrightarrow> event_score (mk_inter_row e dur) = 2.0)
   \<and> (ev_event_type e = Some ''impression'' \<longrightarrow> event_score (mk_inter_row e dur) = 0.1)
   \<and> (ev_event_type e \<notin> Some ` set (map fst weights) \<longrightarrow> event_score (mk_inter_row e dur) = 0.0)"
proof -
  have nonneg: "0 \<le> event_score (mk_inter_row e dur)"
    if "0 \<le> fillna 0 (ev_watch_time_sec e)" "0 < fillna 30 dur"
  proof (cases "ev_event_type e = Some ''view''")
    case True
    then show ?thesis using that by (simp add: event_score_view Let_def)
  next
    case False
    then show ?thesis by (simp add: event_score_other weights_get_nonneg)
  qed
  have view: "event_score (mk_inter_row e dur) = 1.0 * (fillna 0 (ev_watch_time_sec e) / fillna 30 dur)"
    if "ev_event_type e = Some ''view''" "0 < fillna 30 dur"
    using that by (simp add: event_score_view Let_def)
  have missing: "event_score (mk_inter_row e dur) = 0"
    if "ev_event_type e = Some ''view''" "ev_watch_time_sec e = None" "0 < fillna 30 dur"
    using that by (simp add: event_score_view Let_def fillna_def)
  have unknown: "event_score (mk_inter_row e dur) = 0.0"
    if "ev_event_type e \<notin> Some ` set (map fst weights)"
  proof (cases "ev_event_type e")
    case None
    then show ?thesis by (simp add: event_score_other weights_get_simps)
  next
    case (Some s)
    with that have s: "s \<notin> set (map fst weights)" by auto
    then have "s \<noteq> ''view''" by (auto simp: weights_def)
    with Some s show ?thesis by (simp add: event_score_other weights_get_unknown)
  qed
  show ?thesis
    using nonneg view missing unknown
    by (simp add: event_score_other weights_get_simps)
qed

theorem event_score_spec_witness:
  "event_score (mk_inter_row \<lparr> ev_user_id = ''u1'', ev_ping_id = ''p1'', ev_event_type = Some ''view'',
       ev_watch_time_sec = Some 15, ev_event_timestamp = None \<rparr> (Some 30)) = 1 / 2
   \<and> event_score (mk_inter_row \<lparr> ev_user_id = ''u1'', ev_ping_id = ''p1'', ev_event_type = Some ''view'',
       ev_watch_time_sec = None, ev_event_timestamp = None \<rparr> (Some 30)) = 0
   \<and> event_score (mk_inter_row \<lparr> ev_user_id = ''u1'', ev_ping_id = ''p1'', ev_event_type = Some ''like'',
       ev_watch_time_sec = Some 15, ev_event_timestamp = None \<rparr> None) = 2
   \<and> event_score (mk_inter_row \<lparr> ev_user_id = ''u1'', ev_ping_id = ''p1'', ev_event_type = Some ''hover'',
       ev_watch_time_sec = Some 15, ev_event_timestamp = None \<rparr> None) = 0"
  using event_score_spec [of "\<lparr> ev_user_id = ''u1'', ev_ping_id = ''p1'', ev_event_type = Some ''view'',
       ev_watch_time_sec = Some 15, ev_event_timestamp = None \<rparr>" "Some 30"]
    event_score_spec [of "\<lparr> ev_user_id = ''u1'', ev_ping_id = ''p1'', ev_event_type = Some ''view'',
       ev_watch_time_sec = None, ev_event_timestamp = None \<rparr>" "Some 30"]
    event_score_spec [of "\<lparr> ev_user_id = ''u1'', ev_ping_id = ''p1'', ev_event_type = Some ''like'',
       ev_watch_time_sec = Some 15, ev_event_timestamp = None \<rparr>" None]
    event_score_spec [of "\<lparr> ev_user_id = ''u1'', ev_ping_id = ''p1'', ev_event_type = Some ''hover'',
       ev_watch_time_sec = Some 15, ev_event_timestamp = None \<rparr>" None]
  by (simp add: fillna_def weights_def)

text \<open>
  Claim C9. The watch-time ratio is not capped at 1: a view event whose watch time
  exceeds its (positive) resolved duration scores more than the view weight. Watching
  60 seconds of a 30-second ping scores \<open>2.0\<close>.
\<close>

theorem watch_time_ratio_not_capped:
  "ev_event_type e = Some ''view'' \<Longrightarrow> 0 < fillna 30 dur \<Longrightarrow>
   fillna 30 dur < fillna 0 (ev_watch_time_sec e) \<Longrightarrow>
   the (map_of weights ''view'') < event_score (mk_inter_row e dur)
   \<and> event_score (mk_inter_row e dur) = fillna 0 (ev_watch_time_sec e) / fillna 30 dur"
  by (simp add: event_score_view Let_def weights_def)

theorem watch_time_ratio_not_capped_witness:
  "the (map_of weights ''view'') = 1
   \<and> event_score (mk_inter_row \<lparr> ev_user_id = ''u1'', ev_ping_id = ''p1'', ev_event_type = Some ''view'',
       ev_watch_time_sec = Some 60, ev_event_timestamp = None \<rparr> (Some 30)) = 2"
  using watch_time_ratio_not_capped [of "\<lparr> ev_user_id = ''u1'', ev_ping_id = ''p1'',
       ev_event_type = Some ''view'', ev_watch_time_sec = Some 60, ev_event_timestamp = None \<rparr>" "Some 30"]
  by (simp add: fillna_def weights_def)

section \<open>Sorting\<close>

lemma stable_sort_desc_ok: "sorts_descending key (stable_sort_desc key)"
proof -
  have "sorted_wrt (\<lambda>a b. key b \<le> key a) (sort_key (\<lambda>r. - key r) xs)" for xs
    using sorted_sort_key [of "\<lambda>r. - key r" xs] by (simp add: sorted_map)
  then show ?thesis
    by (simp add: sorts_descending_def stable_sort_desc_def)
qed


lemma sorts_descending_mset: "sorts_descending key srt \<Longrightarrow> mset (srt xs) = mset xs"
  by (simp add: sorts_descending_def)

lemma sorts_descending_set: "sorts_descending key srt \<Longrightarrow> set (srt xs) = set xs"
  by (metis sorts_descending_mset set_mset_mset)

lemma sorts_descending_length: "sorts_descending key srt \<Longrightarrow> length (srt xs) = length xs"
  by (metis sorts_descending_mset size_mset)



section \<open>Aggregator: properties\<close>

lemma ping_global_groups_ids:
  "map gl_ping_id (ping_global_groups up) = group_keys up_ping_id up"
  by (simp add: ping_global_groups_def Let_def comp_def)





section \<open>Item features: properties\<close>

lemma col_max_eq: "col_max xs = (if xs = [] then None else Some (Max (set xs)))"
  by (cases xs) (simp_all add: col_max_def Max.set_eq_fold [symmetric])

lemma col_min_eq: "col_min xs = (if xs = [] then None else Some (Min (set xs)))"
  by (cases xs) (simp_all add: col_min_def Min.set_eq_fold [symmetric])

lemma global_pop_norm_eq:
  "pops \<noteq> [] \<Longrightarrow> global_pop_norm pops x =
     (if Min (set pops) < Max (set pops) then (x - Min (set pops)) / (Max (set pops) - Min (set pops)) else 0)"
  by (simp add: global_pop_norm_def col_max_eq col_min_eq)

lemma global_pop_norm_bounds:
  assumes "x \<in> set pops"
  shows "0 \<le> global_pop_norm pops x \<and> global_pop_norm pops x \<le> 1"
proof -
  from assms have ne: "pops \<noteq> []" by auto
  have lo: "Min (set pops) \<le> x" and hi: "x \<le> Max (set pops)"
    using assms by simp_all
  show ?thesis
  proof (cases "Min (set pops) < Max (set pops)")
    case True
    then show ?thesis using lo hi ne by (simp add: global_pop_norm_eq)
  next
    case False
    then show ?thesis using ne by (simp add: global_pop_norm_eq)
  qed
qed

lemma items_eq:
  "items pings pgl =
     map (\<lambda>p. \<lparr> it_ping = p, it_global_pop = global_pop pgl (pg_ping_id p),
                it_global_pop_norm = global_pop_norm (map (\<lambda>p. global_pop pgl (pg_ping_id p)) pings)
                                       (global_pop pgl (pg_ping_id p)),
                it_age_days = age_days (now pings) (pg_created_at p),
                it_freshness = freshness (age_days (now pings) (pg_created_at p)) \<rparr>) pings"
  by (simp add: items_def Let_def)

lemma items_global_pop:
  "map it_global_pop (items pings pgl) = map (\<lambda>p. global_pop pgl (pg_ping_id p)) pings"
  by (simp add: items_eq comp_def)

lemma items_ping: "map it_ping (items pings pgl) = pings"
  by (simp add: items_eq comp_def)

lemma item_norm:
  "i \<in> set (items pings pgl) \<Longrightarrow>
   it_global_pop_norm i = global_pop_norm (map it_global_pop (items pings pgl)) (it_global_pop i)"
  unfolding items_global_pop by (auto simp: items_eq)

lemma t_items_pipeline:
  "t_items (pipeline srt P E) =
     items (fill_duration P) (ping_global srt (user_ping (inter_tbl (fill_duration P) E)))"
  by (simp add: pipeline_def Let_def)

lemma ex_items: "t_items ex_tables = [ex_item_p1, ex_item_p2, ex_item_p3]"
  by code_simp

lemma ex_durations: "durations_positive ex_pings"
  by code_simp

text \<open>
  Claim C5. In a run on a catalog with positive durations, every item's
  \<open>global_pop_norm\<close> lies in \<open>[0, 1]\<close>; it is \<open>(global_pop - min) / (max - min)\<close> over the
  items' engagement values when these differ, and \<open>0\<close> for every item when they are all
  equal (all zero included).
\<close>

theorem global_pop_norm_range:
  assumes "durations_positive P" and "i \<in> set (t_items (pipeline srt P E))"
  shows "0 \<le> it_global_pop_norm i \<and> it_global_pop_norm i \<le> 1
    \<and> (let pops = set (map it_global_pop (t_items (pipeline srt P E)))
       in (Min pops < Max pops \<longrightarrow>
            it_global_pop_norm i = (it_global_pop i - Min pops) / (Max pops - Min pops))
        \<and> (Min pops = Max pops \<longrightarrow> it_global_pop_norm i = 0))
    \<and> ((\<forall>j \<in> set (t_items (pipeline srt P E)). it_global_pop j = it_global_pop i)
         \<longrightarrow> it_global_pop_norm i = 0)"
proof -
  let ?its = "t_items (pipeline srt P E)"
  let ?pops = "map it_global_pop ?its"
  have n: "it_global_pop_norm i = global_pop_norm ?pops (it_global_pop i)"
    using assms(2) unfolding t_items_pipeline by (rule item_norm)
  have mem: "it_global_pop i \<in> set ?pops" using assms(2) by simp
  then have ne: "?pops \<noteq> []" by auto
  have b: "0 \<le> it_global_pop_norm i \<and> it_global_pop_norm i \<le> 1"
    unfolding n using mem by (rule global_pop_norm_bounds)
  have f: "Min (set ?pops) < Max (set ?pops) \<longrightarrow>
      it_global_pop_norm i = (it_global_pop i - Min (set ?pops)) / (Max (set ?pops) - Min (set ?pops))"
    unfolding n using ne by (simp add: global_pop_norm_eq)
  have z: "Min (set ?pops) = Max (set ?pops) \<longrightarrow> it_global_pop_norm i = 0"
    unfolding n using ne by (simp add: global_pop_norm_eq)
  have e: "it_global_pop_norm i = 0" if "\<forall>j \<in> set ?its. it_global_pop j = it_global_pop i"
  proof -
    from that have "set ?pops = {it_global_pop i}" using mem by auto
    then have "Min (set ?pops) = Max (set ?pops)" by simp
    with z show ?thesis by simp
  qed
  show ?thesis using b f z e by (simp add: Let_def)
qed

theorem global_pop_norm_range_witness:
  "durations_positive ex_pings \<and> ex_item_p1 \<in> set (t_items ex_tables)
   \<and> 0 \<le> it_global_pop_norm ex_item_p1 \<and> it_global_pop_norm ex_item_p1 \<le> 1
   \<and> it_global_pop_norm ex_item_p1 = (it_global_pop ex_item_p1 - 0) / (3 - 0)"
proof -
  let ?S = "set (map it_global_pop (t_items (pipeline (stable_sort_desc gl_global_engagement) ex_pings ex_events)))"
  have m: "ex_item_p1 \<in> set (t_items (pipeline (stable_sort_desc gl_global_engagement) ex_pings ex_events))"
    using ex_items by (simp add: ex_tables_def)
  have "?S = {1 / 2, 3, 0}"
    using ex_items by (simp add: ex_tables_def ex_item_p1_def ex_item_p2_def ex_item_p3_def)
  then have mm: "Min ?S = 0" "Max ?S = 3" by simp_all
  from global_pop_norm_range [OF ex_durations m]
  have b: "0 \<le> it_global_pop_norm ex_item_p1 \<and> it_global_pop_norm ex_item_p1 \<le> 1"
    and f: "Min ?S < Max ?S \<longrightarrow>
      it_global_pop_norm ex_item_p1 = (it_global_pop ex_item_p1 - Min ?S) / (Max ?S - Min ?S)"
    unfolding Let_def by blast+
  from f have "it_global_pop_norm ex_item_p1 = (it_global_pop ex_item_p1 - 0) / (3 - 0)"
    unfolding mm by simp
  with b show ?thesis
    using ex_durations m by (simp add: ex_tables_def)
qed

lemma now_eq: "now pings = reference_now pings"
  by (simp add: now_def reference_now_def col_max_eq)

lemma fill_duration_created: "map pg_created_at (fill_duration P) = map pg_created_at P"
  by (simp add: fill_duration_def comp_def)

lemma fill_duration_ids: "map pg_ping_id (fill_duration P) = map pg_ping_id P"
  by (simp add: fill_duration_def comp_def)

lemma known_created_map:
  "known_created P = concat (map (\<lambda>c. case c of None \<Rightarrow> [] | Some t \<Rightarrow> [t]) (map pg_created_at P))"
  by (simp add: known_created_def comp_def)

lemma known_created_fill: "known_created (fill_duration P) = known_created P"
  by (simp only: known_created_map fill_duration_created)

lemma reference_now_fill: "reference_now (fill_duration P) = reference_now P"
  by (simp add: reference_now_def known_created_fill)

lemma known_created_mem:
  "p \<in> set pings \<Longrightarrow> pg_created_at p = Some t \<Longrightarrow> t \<in> set (known_created pings)"
  by (force simp: known_created_def)

lemma age_days_nonneg:
  assumes "p \<in> set pings"
  shows "0 \<le> age_days (reference_now pings) (pg_created_at p)"
proof (cases "pg_created_at p")
  case None
  then show ?thesis by (simp add: age_days_def)
next
  case (Some t)
  with assms have m: "t \<in> set (known_created pings)" by (rule known_created_mem)
  then have "t \<le> Max (set (known_created pings))" by simp
  moreover from m have "known_created pings \<noteq> []" by auto
  ultimately have "0 \<le> reference_now pings - t" by (simp add: reference_now_def)
  then have "0 \<le> (reference_now pings - t) div ns_per_day"
    by (simp add: ns_per_day_def pos_imp_zdiv_nonneg_iff)
  with Some show ?thesis by (simp add: age_days_def)
qed

lemma freshness_range: "0 \<le> a \<Longrightarrow> 0 < freshness a \<and> freshness a \<le> 1"
  by (simp add: freshness_def)

lemma freshness_strict: "0 \<le> a \<Longrightarrow> a < b \<Longrightarrow> freshness b < freshness a"
  by (simp add: freshness_def frac_less2)

text \<open>
  Claim C6. For every item of a run, \<open>freshness = 1 / (1 + age_days)\<close>; \<open>age_days\<close>
  is the number of whole days from the item's \<open>created_at\<close> to the reference date (the
  latest \<open>created_at\<close> of the catalog, the fixed date when none is known) and \<open>30\<close> when
  \<open>created_at\<close> is missing. Ages are never negative, freshness lies in \<open>(0, 1]\<close>, and an
  older item, or any larger age, is strictly less fresh.
\<close>

theorem freshness_spec:
  assumes "i \<in> set (t_items (pipeline srt P E))"
  shows "it_freshness i = 1 / (1 + it_age_days i)
    \<and> it_age_days i = (case pg_created_at (it_ping i) of
                         None \<Rightarrow> 30
                       | Some t \<Rightarrow> of_int ((reference_now P - t) div ns_per_day))
    \<and> 0 \<le> it_age_days i \<and> 0 < it_freshness i \<and> it_freshness i \<le> 1
    \<and> (\<forall>j \<in> set (t_items (pipeline srt P E)).
          it_age_days i < it_age_days j \<longrightarrow> it_freshness j < it_freshness i)
    \<and> (\<forall>a b. 0 \<le> a \<and> a < b \<longrightarrow> freshness b < freshness a)"
proof -
  let ?pings = "fill_duration P"
  have props: "it_freshness k = freshness (it_age_days k)
      \<and> it_age_days k = age_days (reference_now P) (pg_created_at (it_ping k))
      \<and> 0 \<le> it_age_days k"
    if "k \<in> set (t_items (pipeline srt P E))" for k
  proof -
    from that obtain p where p: "p \<in> set ?pings"
      and k: "it_ping k = p" "it_age_days k = age_days (now ?pings) (pg_created_at p)"
        "it_freshness k = freshness (age_days (now ?pings) (pg_created_at p))"
      unfolding t_items_pipeline items_eq by auto
    from age_days_nonneg [OF p] show ?thesis
      using k by (simp add: now_eq reference_now_fill)
  qed
  from props [OF assms] have i: "it_freshness i = freshness (it_age_days i)"
    "it_age_days i = age_days (reference_now P) (pg_created_at (it_ping i))" "0 \<le> it_age_days i"
    by simp_all
  have mono: "it_freshness j < it_freshness i"
    if "j \<in> set (t_items (pipeline srt P E))" "it_age_days i < it_age_days j" for j
    using props [OF that(1)] i that(2) by (simp add: freshness_strict)
  show ?thesis
    using i freshness_range [OF i(3)] mono freshness_strict
    by (simp add: freshness_def age_days_def)
qed

theorem freshness_spec_witness:
  "ex_item_p2 \<in> set (t_items ex_tables) \<and> ex_item_p3 \<in> set (t_items ex_tables)
   \<and> reference_now ex_pings = 10 * ns_per_day
   \<and> it_age_days ex_item_p2 = of_int ((10 * ns_per_day - (3 * ns_per_day + 5)) div ns_per_day)
   \<and> it_age_days ex_item_p2 = 6 \<and> it_freshness ex_item_p2 = 1 / (1 + 6)
   \<and> it_age_days ex_item_p2 < it_age_days ex_item_p3
   \<and> it_freshness ex_item_p3 < it_freshness ex_item_p2"
proof -
  have m2: "ex_item_p2 \<in> set (t_items (pipeline (stable_sort_desc gl_global_engagement) ex_pings ex_events))"
    and m3: "ex_item_p3 \<in> set (t_items (pipeline (stable_sort_desc gl_global_engagement) ex_pings ex_events))"
    using ex_items by (simp_all add: ex_tables_def)
  have r: "reference_now ex_pings = 10 * ns_per_day"
    by (simp add: reference_now_def known_created_def ex_pings_def ns_per_day_def)
  have lt: "it_age_days ex_item_p2 < it_age_days ex_item_p3"
    by (simp add: ex_item_p2_def ex_item_p3_def)
  from freshness_spec [OF m2] m3 lt
  have "it_freshness ex_item_p3 < it_freshness ex_item_p2" by blast
  moreover from freshness_spec [OF m2]
  have "it_age_days ex_item_p2 = of_int ((reference_now ex_pings - (3 * ns_per_day + 5)) div ns_per_day)"
    by (simp add: ex_item_p2_def)
  ultimately show ?thesis
    using m2 m3 r lt by (simp add: ex_tables_def ex_item_p2_def ns_per_day_def)
qed

section \<open>Recommender: properties\<close>

lemma reason_eq: "reason r = reason_by_spec r"
  by (simp add: reason_def reason_by_spec_def reason_labels_def reason_conditions_def Let_def)

lemma reason_fallback_iff:
  "reason r = ''popular/new'' \<longleftrightarrow> reason_labels r = []"
  by (simp add: reason_def reason_labels_def reason_conditions_def Let_def)

text \<open>
  Claim C8. The reason of a recommended item is what the spec describes: the four
  tests \<open>user_cat_aff > 0\<close>, \<open>user_cre_aff > 0\<close>, \<open>global_pop_norm > 0.5\<close> and
  \<open>freshness > 0.02\<close> in this order, the labels of those that hold joined with \<open>"; "\<close>,
  and \<open>popular/new\<close> exactly when none of the four holds. The category label is
  \<open>prefers cat=\<close> followed by the item's category.
\<close>

theorem reason_spec:
  "rc_reason (to_recommendation r) =
     (if reason_labels r = [] then ''popular/new'' else join ''; '' (reason_labels r))
   \<and> (rc_reason (to_recommendation r) = ''popular/new'' \<longleftrightarrow>
        \<not> (0 < sc_user_cat_aff r \<or> 0 < sc_user_cre_aff r
           \<or> 0.5 < it_global_pop_norm (sc_item r) \<or> 0.02 < it_freshness (sc_item r)))
   \<and> map rc_reason (recommend_for_user srt T uid topk alpha beta gamma delta)
       = map reason_by_spec (top_rows srt T uid topk alpha beta gamma delta)"
proof -
  have a: "rc_reason (to_recommendation r) = reason_by_spec r"
    by (simp add: to_recommendation_def reason_eq)
  have b: "reason_labels r = [] \<longleftrightarrow>
        \<not> (0 < sc_user_cat_aff r \<or> 0 < sc_user_cre_aff r
           \<or> 0.5 < it_global_pop_norm (sc_item r) \<or> 0.02 < it_freshness (sc_item r))"
    by (simp add: reason_labels_def reason_conditions_def)
  have c: "map rc_reason (recommend_for_user srt T uid topk alpha beta gamma delta)
       = map reason_by_spec (top_rows srt T uid topk alpha beta gamma delta)"
    by (simp add: recommend_for_user_def to_recommendation_def comp_def reason_eq)
  have d: "rc_reason (to_recommendation r) = ''popular/new'' \<longleftrightarrow> reason_labels r = []"
    by (simp add: to_recommendation_def reason_fallback_iff)
  show ?thesis using a b c d by (simp add: reason_by_spec_def)
qed

theorem reason_spec_witness:
  "rc_reason (to_recommendation ex_scored_hot)
     = ''prefers cat=b; engaged this creator; globally popular; recent''
   \<and> rc_reason (to_recommendation ex_scored_stale) = ''popular/new''
   \<and> map rc_reason (recommend_for_user (stable_sort_desc sc_score) ex_tables ''u1'' 10 0.5 0.25 0.15 0.1)
       = [''globally popular; recent'', ''recent'']"
proof -
  have l1: "reason_labels ex_scored_hot
      = [''prefers cat=b'', ''engaged this creator'', ''globally popular'', ''recent'']"
    by (simp add: reason_labels_def reason_conditions_def ex_scored_hot_def ex_item_p2_def str_cell_def)
  have l2: "reason_labels ex_scored_stale = []"
    by (simp add: reason_labels_def reason_conditions_def ex_scored_stale_def ex_item_p3_def)
  have l3: "map reason_by_spec (top_rows (stable_sort_desc sc_score) ex_tables ''u1'' 10 0.5 0.25 0.15 0.1)
      = [''globally popular; recent'', ''recent'']"
    by code_simp
  from reason_spec [where r = ex_scored_hot and srt = "stable_sort_desc sc_score" and T = ex_tables
        and uid = "''u1''" and topk = 10 and alpha = "0.5" and beta = "0.25" and gamma = "0.15"
        and delta = "0.1"]
    reason_spec [where r = ex_scored_stale and srt = "stable_sort_desc sc_score" and T = ex_tables
        and uid = "''u1''" and topk = 10 and alpha = "0.5" and beta = "0.25" and gamma = "0.15"
        and delta = "0.1"]
  show ?thesis
    unfolding l1 l2 l3 by simp
qed

lemma head_length: "0 \<le> k \<Longrightarrow> length (head k xs) = min (nat k) (length xs)"
  by (simp add: head_def)

lemma head_subset: "set (head k xs) \<subseteq> set xs"
  by (auto simp: head_def dest: in_set_takeD)

lemma head_all: "int (length xs) \<le> k \<Longrightarrow> head k xs = xs"
  by (simp add: head_def)

lemma merge_duration_rows:
  "r \<in> set (merge_duration pings e) \<Longrightarrow> in_user_id r = ev_user_id e \<and> in_ping_id r = ev_ping_id e"
  by (auto simp: merge_duration_def mk_inter_row_def Let_def split: list.splits)

lemma merge_duration_nonempty: "merge_duration pings e \<noteq> []"
  by (simp add: merge_duration_def split: list.splits)

lemma inter_pairs:
  "(\<lambda>r. (in_user_id r, in_ping_id r)) ` set (inter_tbl pings E) = (\<lambda>e. (ev_user_id e, ev_ping_id e)) ` set E"
proof (intro set_eqI iffI)
  fix x assume "x \<in> (\<lambda>r. (in_user_id r, in_ping_id r)) ` set (inter_tbl pings E)"
  then obtain r e where "e \<in> set E" "r \<in> set (merge_duration pings e)" "x = (in_user_id r, in_ping_id r)"
    by (auto simp: inter_tbl_def)
  then show "x \<in> (\<lambda>e. (ev_user_id e, ev_ping_id e)) ` set E"
    using merge_duration_rows by force
next
  fix x assume "x \<in> (\<lambda>e. (ev_user_id e, ev_ping_id e)) ` set E"
  then obtain e where e: "e \<in> set E" "x = (ev_user_id e, ev_ping_id e)" by auto
  obtain r where r: "r \<in> set (merge_duration pings e)"
    using merge_duration_nonempty [of pings e] by (cases "merge_duration pings e") auto
  with e have "r \<in> set (inter_tbl pings E)" by (auto simp: inter_tbl_def)
  moreover from r e have "x = (in_user_id r, in_ping_id r)" using merge_duration_rows by force
  ultimately show "x \<in> (\<lambda>r. (in_user_id r, in_ping_id r)) ` set (inter_tbl pings E)" by blast
qed

lemma seen_inter: "set (seen (inter_tbl pings E) uid) = interacted E uid"
proof -
  have "set (seen (inter_tbl pings E) uid)
      = snd ` ((\<lambda>r. (in_user_id r, in_ping_id r)) ` set (inter_tbl pings E) \<inter> ({uid} \<times> UNIV))"
    by (force simp: seen_def)
  also have "\<dots> = snd ` ((\<lambda>e. (ev_user_id e, ev_ping_id e)) ` set E \<inter> ({uid} \<times> UNIV))"
    by (simp only: inter_pairs)
  also have "\<dots> = interacted E uid"
    by (force simp: interacted_def)
  finally show ?thesis .
qed

lemma t_inter_pipeline: "t_inter (pipeline srt P E) = inter_tbl (fill_duration P) E"
  by (simp add: pipeline_def Let_def)

lemma scored_item: "map sc_item (scored T uid a b c d) = t_items T"
  by (simp add: scored_def score_item_def Let_def comp_def)

lemma unseen_items:
  "map sc_item (unseen (pipeline srt0 P E) uid a b c d) = remaining (pipeline srt0 P E) E uid"
proof -
  have "map sc_item (unseen (pipeline srt0 P E) uid a b c d)
      = filter (\<lambda>i. pg_ping_id (it_ping i) \<notin> interacted E uid)
          (map sc_item (scored (pipeline srt0 P E) uid a b c d))"
    by (simp add: unseen_def filter_map comp_def seen_inter t_inter_pipeline)
  then show ?thesis by (simp add: scored_item remaining_def)
qed

lemma top_rows_subset:
  assumes "sorts_descending sc_score srt"
  shows "set (top_rows srt T uid k a b c d) \<subseteq> set (unseen T uid a b c d)"
proof -
  have "set (head k (srt (unseen T uid a b c d))) \<subseteq> set (srt (unseen T uid a b c d))"
    by (rule head_subset)
  also have "set (srt (unseen T uid a b c d)) = set (unseen T uid a b c d)"
    using assms by (rule sorts_descending_set)
  finally show ?thesis by (simp add: top_rows_def)
qed

lemma top_rows_length:
  "sorts_descending sc_score srt \<Longrightarrow> 0 \<le> k \<Longrightarrow>
   length (top_rows srt T uid k a b c d) = min (nat k) (length (unseen T uid a b c d))"
  by (simp add: top_rows_def head_length sorts_descending_length)

lemma rec_ping_ids:
  "map rc_ping_id (recommend_for_user srt T uid k a b c d)
     = map (\<lambda>r. pg_ping_id (it_ping (sc_item r))) (top_rows srt T uid k a b c d)"
  by (simp add: recommend_for_user_def to_recommendation_def comp_def)

text \<open>
  Claim C3. For every user and every \<open>k \<ge> 0\<close>, no recommended ping is one the user
  has an interaction event on (of any type), at most \<open>k\<close> rows are returned, and fewer
  than \<open>k\<close> exactly when the catalog without the user's seen pings has fewer than \<open>k\<close>
  rows: the number of rows is the smaller of the two. This holds for every sort that
  keeps pandas' promise.
\<close>

theorem recommend_excludes_seen:
  assumes "sorts_descending sc_score srt" and "0 \<le> k"
  shows "set (map rc_ping_id (recommend_for_user srt (pipeline srt0 P E) uid k alpha beta gamma delta))
           \<inter> interacted E uid = {}
    \<and> length (recommend_for_user srt (pipeline srt0 P E) uid k alpha beta gamma delta) \<le> nat k
    \<and> (length (recommend_for_user srt (pipeline srt0 P E) uid k alpha beta gamma delta) < nat k
         \<longleftrightarrow> length (remaining (pipeline srt0 P E) E uid) < nat k)
    \<and> length (recommend_for_user srt (pipeline srt0 P E) uid k alpha beta gamma delta)
        = min (nat k) (length (remaining (pipeline srt0 P E) E uid))"
proof -
  let ?T = "pipeline srt0 P E"
  let ?out = "recommend_for_user srt ?T uid k alpha beta gamma delta"
  let ?rows = "top_rows srt ?T uid k alpha beta gamma delta"
  let ?un = "unseen ?T uid alpha beta gamma delta"
  have len_un: "length ?un = length (remaining ?T E uid)"
    using unseen_items [of srt0 P E uid alpha beta gamma delta] by (metis length_map)
  have len: "length ?out = min (nat k) (length (remaining ?T E uid))"
    using top_rows_length [OF assms] len_un by (simp add: recommend_for_user_def)
  have "pg_ping_id (it_ping (sc_item r)) \<notin> interacted E uid" if "r \<in> set ?rows" for r
  proof -
    from that top_rows_subset [OF assms(1)] have "r \<in> set ?un" by blast
    then show ?thesis by (simp add: unseen_def seen_inter t_inter_pipeline)
  qed
  then have ex: "set (map rc_ping_id ?out) \<inter> interacted E uid = {}"
    unfolding rec_ping_ids by auto
  show ?thesis using ex len by auto
qed

theorem recommend_excludes_seen_witness:
  "sorts_descending sc_score (stable_sort_desc sc_score)
   \<and> interacted ex_events ''u1'' = {''p1'', ''p9''}
   \<and> map rc_ping_id (recommend_for_user (stable_sort_desc sc_score) ex_tables ''u1'' 1 0.5 0.25 0.15 0.1)
       = [''p2'']
   \<and> set (map rc_ping_id (recommend_for_user (stable_sort_desc sc_score) ex_tables ''u1'' 1 0.5 0.25 0.15 0.1))
       \<inter> interacted ex_events ''u1'' = {}
   \<and> length (recommend_for_user (stable_sort_desc sc_score) ex_tables ''u1'' 1 0.5 0.25 0.15 0.1)
       = min (nat 1) (length (remaining ex_tables ex_events ''u1''))
   \<and> length (remaining ex_tables ex_events ''u1'') = 2
   \<and> length (recommend_for_user (stable_sort_desc sc_score) ex_tables ''u1'' 10 0.5 0.25 0.15 0.1) = 2"
proof -
  have i: "interacted ex_events ''u1'' = {''p1'', ''p9''}"
    by (simp add: interacted_def ex_events_def)
  have r: "map rc_ping_id (recommend_for_user (stable_sort_desc sc_score) ex_tables ''u1'' 1 0.5 0.25 0.15 0.1)
       = [''p2'']"
    by code_simp
  have n: "length (remaining ex_tables ex_events ''u1'') = 2"
    by code_simp
  have k1: "(0::int) \<le> 1" and k10: "(0::int) \<le> 10" by simp_all
  from recommend_excludes_seen [OF stable_sort_desc_ok k1,
      where ?srt0.0 = "stable_sort_desc gl_global_engagement" and P = ex_pings and E = ex_events
        and uid = "''u1''" and alpha = "0.5" and beta = "0.25" and gamma = "0.15" and delta = "0.1"]
    recommend_excludes_seen [OF stable_sort_desc_ok k10,
      where ?srt0.0 = "stable_sort_desc gl_global_engagement" and P = ex_pings and E = ex_events
        and uid = "''u1''" and alpha = "0.5" and beta = "0.25" and gamma = "0.15" and delta = "0.1"]
  show ?thesis
    unfolding ex_tables_def [symmetric] using i r n stable_sort_desc_ok [of sc_score] by simp
qed

section \<open>Cold start and items without events\<close>

lemma group_size_keys: "set (map fst (group_size ks)) = set ks"
  by (simp add: group_size_def comp_def)

lemma merge_total_user:
  "r \<in> set (merge_total counts totals) \<Longrightarrow> \<exists>n. ((af_user_id r, af_key r), n) \<in> set counts"
  by (auto simp: merge_total_def)

lemma known_pairs_user:
  "(u, c) \<in> set (known_pairs col im) \<Longrightarrow> u \<in> set (map (\<lambda>r. in_user_id (im_inter r)) im)"
  by (auto simp: known_pairs_def split: option.splits)

lemma merge_meta_inter: "r \<in> set (merge_meta its x) \<Longrightarrow> im_inter r = x"
  by (cases "filter (\<lambda>i. pg_ping_id (it_ping i) = in_ping_id x) its") (auto simp: merge_meta_def)

lemma int_meta_inter: "r \<in> set (int_meta its rows) \<Longrightarrow> im_inter r \<in> set rows"
  by (auto simp: int_meta_def dest: merge_meta_inter)

lemma inter_users: "set (map in_user_id (inter_tbl pings E)) = set (map ev_user_id E)"
proof -
  have "set (map in_user_id (inter_tbl pings E)) = fst ` (\<lambda>r. (in_user_id r, in_ping_id r)) ` set (inter_tbl pings E)"
    by (simp add: image_image)
  also have "\<dots> = fst ` (\<lambda>e. (ev_user_id e, ev_ping_id e)) ` set E"
    by (simp only: inter_pairs)
  also have "\<dots> = set (map ev_user_id E)" by (simp add: image_image)
  finally show ?thesis .
qed

lemma inter_pings: "set (map in_ping_id (inter_tbl pings E)) = set (map ev_ping_id E)"
proof -
  have "set (map in_ping_id (inter_tbl pings E)) = snd ` (\<lambda>r. (in_user_id r, in_ping_id r)) ` set (inter_tbl pings E)"
    by (simp add: image_image)
  also have "\<dots> = snd ` (\<lambda>e. (ev_user_id e, ev_ping_id e)) ` set E"
    by (simp only: inter_pairs)
  also have "\<dots> = set (map ev_ping_id E)" by (simp add: image_image)
  finally show ?thesis .
qed

lemma affinity_table_user:
  assumes "r \<in> set (merge_total (group_size (known_pairs col (int_meta its (inter_tbl pings E)))) totals)"
  shows "af_user_id r \<in> set (map ev_user_id E)"
proof -
  from merge_total_user [OF assms] obtain n where
    "((af_user_id r, af_key r), n) \<in> set (group_size (known_pairs col (int_meta its (inter_tbl pings E))))" ..
  then have "(af_user_id r, af_key r) \<in> set (map fst (group_size (known_pairs col (int_meta its (inter_tbl pings E)))))"
    by force
  then have "(af_user_id r, af_key r) \<in> set (known_pairs col (int_meta its (inter_tbl pings E)))"
    by (simp only: group_size_keys)
  then have "af_user_id r \<in> set (map (\<lambda>r. in_user_id (im_inter r)) (int_meta its (inter_tbl pings E)))"
    by (rule known_pairs_user)
  then obtain m where m: "m \<in> set (int_meta its (inter_tbl pings E))" "af_user_id r = in_user_id (im_inter m)"
    by auto
  from int_meta_inter [OF m(1)] have "in_user_id (im_inter m) \<in> set (map in_user_id (inter_tbl pings E))"
    by simp
  with m(2) show ?thesis by (simp only: inter_users)
qed

lemma t_user_cat_pipeline:
  "t_user_cat (pipeline srt P E) =
     user_cat (int_meta (t_items (pipeline srt P E)) (inter_tbl (fill_duration P) E))"
  by (simp add: pipeline_def Let_def)

lemma t_user_creator_pipeline:
  "t_user_creator (pipeline srt P E) =
     user_creator (int_meta (t_items (pipeline srt P E)) (inter_tbl (fill_duration P) E))"
  by (simp add: pipeline_def Let_def)

lemma affinity_dict_absent:
  "\<forall>r \<in> set tab. af_user_id r \<noteq> uid \<Longrightarrow> affinity_dict tab uid = []"
  by (simp add: affinity_dict_def filter_empty_conv)

lemma cold_dicts:
  assumes "uid \<notin> set (map ev_user_id E)"
  shows "affinity_dict (t_user_cat (pipeline srt0 P E)) uid = []"
    and "affinity_dict (t_user_creator (pipeline srt0 P E)) uid = []"
proof -
  show "affinity_dict (t_user_cat (pipeline srt0 P E)) uid = []"
    unfolding t_user_cat_pipeline user_cat_def
    using affinity_table_user assms by (intro affinity_dict_absent ballI) metis
  show "affinity_dict (t_user_creator (pipeline srt0 P E)) uid = []"
    unfolding t_user_creator_pipeline user_creator_def
    using affinity_table_user assms by (intro affinity_dict_absent ballI) metis
qed

lemma cold_interacted: "uid \<notin> set (map ev_user_id E) \<Longrightarrow> interacted E uid = {}"
  by (auto simp: interacted_def filter_empty_conv)

lemma map_fillna_empty: "map_fillna [] c = 0"
  by (simp add: map_fillna_def fillna_def split: option.splits)

lemma unseen_scored:
  "r \<in> set (unseen T uid a b c d) \<Longrightarrow>
   \<exists>i \<in> set (t_items T). r = score_item (affinity_dict (t_user_cat T) uid) (affinity_dict (t_user_creator T) uid) a b c d i"
  by (auto simp: unseen_def scored_def)

text \<open>
  Claim C7. On a catalog with positive durations, a user without any event has no row
  in either affinity table; the recommender still returns rows (the first \<open>k\<close> of the
  whole catalog, since nothing is seen), both affinity columns are \<open>0\<close> and every
  score is \<open>alpha * global_pop_norm + delta * freshness\<close> of its item.
\<close>

theorem cold_start_scores:
  assumes "sorts_descending sc_score srt" and "uid \<notin> set (map ev_user_id E)"
    and "durations_positive P"
  shows "map rc_score (recommend_for_user srt (pipeline srt0 P E) uid k alpha beta gamma delta)
       = map (\<lambda>r. alpha * it_global_pop_norm (sc_item r) + delta * it_freshness (sc_item r))
           (top_rows srt (pipeline srt0 P E) uid k alpha beta gamma delta)
    \<and> map rc_ping_id (recommend_for_user srt (pipeline srt0 P E) uid k alpha beta gamma delta)
       = map (\<lambda>r. pg_ping_id (it_ping (sc_item r))) (top_rows srt (pipeline srt0 P E) uid k alpha beta gamma delta)
    \<and> set (map sc_item (top_rows srt (pipeline srt0 P E) uid k alpha beta gamma delta))
         \<subseteq> set (t_items (pipeline srt0 P E))
    \<and> list_all (\<lambda>r. sc_user_cat_aff r = 0 \<and> sc_user_cre_aff r = 0)
         (top_rows srt (pipeline srt0 P E) uid k alpha beta gamma delta)
    \<and> (0 \<le> k \<longrightarrow> length (recommend_for_user srt (pipeline srt0 P E) uid k alpha beta gamma delta)
            = min (nat k) (length (t_items (pipeline srt0 P E))))"
proof -
  let ?T = "pipeline srt0 P E"
  let ?rows = "top_rows srt ?T uid k alpha beta gamma delta"
  have row: "sc_item r \<in> set (t_items ?T) \<and> sc_user_cat_aff r = 0 \<and> sc_user_cre_aff r = 0
      \<and> sc_score r = alpha * it_global_pop_norm (sc_item r) + delta * it_freshness (sc_item r)"
    if "r \<in> set ?rows" for r
  proof -
    from that top_rows_subset [OF assms(1)] have "r \<in> set (unseen ?T uid alpha beta gamma delta)"
      by blast
    from unseen_scored [OF this] obtain i where "i \<in> set (t_items ?T)"
      and "r = score_item [] [] alpha beta gamma delta i"
      unfolding cold_dicts [OF assms(2)] by blast
    then show ?thesis by (simp add: score_item_def map_fillna_empty)
  qed
  have s: "map rc_score (recommend_for_user srt ?T uid k alpha beta gamma delta)
       = map (\<lambda>r. alpha * it_global_pop_norm (sc_item r) + delta * it_freshness (sc_item r)) ?rows"
    using row by (simp add: recommend_for_user_def to_recommendation_def)
  have sub: "set (map sc_item ?rows) \<subseteq> set (t_items ?T)" using row by auto
  have z: "list_all (\<lambda>r. sc_user_cat_aff r = 0 \<and> sc_user_cre_aff r = 0) ?rows"
    using row by (simp add: list_all_iff)
  have len: "length (recommend_for_user srt ?T uid k alpha beta gamma delta)
            = min (nat k) (length (t_items ?T))" if "0 \<le> k"
  proof -
    have "remaining ?T E uid = t_items ?T"
      by (simp add: remaining_def cold_interacted [OF assms(2)])
    then have "length (unseen ?T uid alpha beta gamma delta) = length (t_items ?T)"
      using unseen_items [of srt0 P E uid alpha beta gamma delta] by (metis length_map)
    with top_rows_length [OF assms(1) that] show ?thesis
      by (simp add: recommend_for_user_def)
  qed
  show ?thesis using s sub z len rec_ping_ids by simp
qed

theorem cold_start_scores_witness:
  "sorts_descending sc_score (stable_sort_desc sc_score)
   \<and> ''u3'' \<notin> set (map ev_user_id ex_events)
   \<and> durations_positive ex_pings
   \<and> map rc_score (recommend_for_user (stable_sort_desc sc_score) ex_tables ''u3'' 2 0.5 0.25 0.15 0.1)
       = map (\<lambda>r. 0.5 * it_global_pop_norm (sc_item r) + 0.1 * it_freshness (sc_item r))
           (top_rows (stable_sort_desc sc_score) ex_tables ''u3'' 2 0.5 0.25 0.15 0.1)
   \<and> map sc_item (top_rows (stable_sort_desc sc_score) ex_tables ''u3'' 2 0.5 0.25 0.15 0.1)
       = [ex_item_p2, ex_item_p1]
   \<and> map rc_score (recommend_for_user (stable_sort_desc sc_score) ex_tables ''u3'' 2 0.5 0.25 0.15 0.1)
       = [0.5 * 1 + 0.1 * (1 / 7), 0.5 * (1 / 6) + 0.1 * 1]
   \<and> length (recommend_for_user (stable_sort_desc sc_score) ex_tables ''u3'' 2 0.5 0.25 0.15 0.1) = 2"
proof -
  have u: "''u3'' \<notin> set (map ev_user_id ex_events)"
    by (simp add: ex_events_def)
  have t: "map sc_item (top_rows (stable_sort_desc sc_score) ex_tables ''u3'' 2 0.5 0.25 0.15 0.1)
       = [ex_item_p2, ex_item_p1]"
    by code_simp
  have "map (\<lambda>r. 0.5 * it_global_pop_norm (sc_item r) + 0.1 * it_freshness (sc_item r))
           (top_rows (stable_sort_desc sc_score) ex_tables ''u3'' 2 0.5 0.25 0.15 0.1)
       = map (\<lambda>i. 0.5 * it_global_pop_norm i + 0.1 * it_freshness i)
           (map sc_item (top_rows (stable_sort_desc sc_score) ex_tables ''u3'' 2 0.5 0.25 0.15 0.1))"
    by (simp add: comp_def)
  then have t': "map (\<lambda>r. 0.5 * it_global_pop_norm (sc_item r) + 0.1 * it_freshness (sc_item r))
           (top_rows (stable_sort_desc sc_score) ex_tables ''u3'' 2 0.5 0.25 0.15 0.1)
       = [0.5 * 1 + 0.1 * (1 / 7), 0.5 * (1 / 6) + 0.1 * 1]"
    unfolding t by (simp add: ex_item_p1_def ex_item_p2_def)
  have n: "length (t_items ex_tables) = 3" using ex_items by simp
  from cold_start_scores [OF stable_sort_desc_ok u ex_durations,
      where ?srt0.0 = "stable_sort_desc gl_global_engagement" and k = 2
        and alpha = "0.5" and beta = "0.25" and gamma = "0.15" and delta = "0.1"]
  show ?thesis
    unfolding ex_tables_def [symmetric]
    using u t t' n stable_sort_desc_ok [of sc_score] ex_durations by simp
qed

lemma user_ping_ids: "set (map up_ping_id (user_ping rows)) = set (map in_ping_id rows)"
proof -
  have "map up_ping_id (user_ping rows) = map snd (group_keys (\<lambda>r. (in_user_id r, in_ping_id r)) rows)"
    by (simp add: user_ping_def Let_def comp_def case_prod_unfold)
  then have "set (map up_ping_id (user_ping rows)) = snd ` (\<lambda>r. (in_user_id r, in_ping_id r)) ` set rows"
    by (simp add: group_keys_def)
  then show ?thesis by (simp add: image_image)
qed

lemma ping_global_ids:
  assumes "sorts_descending gl_global_engagement srt0"
  shows "set (map gl_ping_id (ping_global srt0 (user_ping (inter_tbl pings E)))) = set (map ev_ping_id E)"
proof -
  have "set (ping_global srt0 (user_ping (inter_tbl pings E))) = set (ping_global_groups (user_ping (inter_tbl pings E)))"
    unfolding ping_global_def using assms by (rule sorts_descending_set)
  then have "set (map gl_ping_id (ping_global srt0 (user_ping (inter_tbl pings E))))
      = set (map gl_ping_id (ping_global_groups (user_ping (inter_tbl pings E))))"
    by simp
  also have "\<dots> = set (map up_ping_id (user_ping (inter_tbl pings E)))"
    by (simp only: ping_global_groups_ids) (simp add: group_keys_def)
  also have "\<dots> = set (map ev_ping_id E)"
    by (simp only: user_ping_ids inter_pings)
  finally show ?thesis .
qed

lemma global_pop_absent: "pid \<notin> set (map gl_ping_id pgl) \<Longrightarrow> global_pop pgl pid = 0"
proof -
  assume "pid \<notin> set (map gl_ping_id pgl)"
  then have "map_of (map (\<lambda>g. (gl_ping_id g, gl_global_engagement g)) pgl) pid = None"
    by (simp add: map_of_eq_None_iff image_image)
  then show ?thesis by (simp add: global_pop_def fillna_def)
qed

lemma item_global_pop:
  "i \<in> set (items pings pgl) \<Longrightarrow> it_global_pop i = global_pop pgl (pg_ping_id (it_ping i))"
  by (auto simp: items_eq)

lemma item_norm_bounds:
  assumes "i \<in> set (items pings pgl)"
  shows "0 \<le> it_global_pop_norm i \<and> it_global_pop_norm i \<le> 1"
proof -
  from assms have "it_global_pop i \<in> set (map it_global_pop (items pings pgl))" by simp
  then show ?thesis unfolding item_norm [OF assms] by (rule global_pop_norm_bounds)
qed

lemma item_age_props:
  assumes "k \<in> set (t_items (pipeline srt P E))"
  shows "it_freshness k = freshness (it_age_days k)
      \<and> it_age_days k = age_days (reference_now P) (pg_created_at (it_ping k))
      \<and> 0 \<le> it_age_days k"
proof -
  let ?pings = "fill_duration P"
  from assms obtain p where p: "p \<in> set ?pings"
    and k: "it_ping k = p" "it_age_days k = age_days (now ?pings) (pg_created_at p)"
      "it_freshness k = freshness (age_days (now ?pings) (pg_created_at p))"
    unfolding t_items_pipeline items_eq by auto
  from age_days_nonneg [OF p] show ?thesis
    using k by (simp add: now_eq reference_now_fill)
qed

lemma t_items_ids: "map (\<lambda>i. pg_ping_id (it_ping i)) (t_items (pipeline srt0 P E)) = map pg_ping_id P"
proof -
  have "map (\<lambda>i. pg_ping_id (it_ping i)) (t_items (pipeline srt0 P E))
      = map pg_ping_id (map it_ping (t_items (pipeline srt0 P E)))"
    by (simp add: comp_def)
  then show ?thesis by (simp only: t_items_pipeline items_ping fill_duration_ids)
qed

text \<open>
  Claim C10. On a catalog with positive durations, every catalog row has its item, in
  catalog order. An item whose ping has no interaction event has \<open>global_pop = 0\<close>, a
  \<open>global_pop_norm\<close> in \<open>[0, 1]\<close> and a freshness in \<open>(0, 1]\<close>; no user has seen it, so
  it is among the candidates of every user and is recommended whenever \<open>k\<close> is at
  least the size of the catalog.
\<close>

theorem uninteracted_item_eligible:
  assumes "sorts_descending gl_global_engagement srt0" and "sorts_descending sc_score srt"
    and "i \<in> set (t_items (pipeline srt0 P E))"
    and "pg_ping_id (it_ping i) \<notin> set (map ev_ping_id E)"
    and "durations_positive P"
  shows "map (\<lambda>i. pg_ping_id (it_ping i)) (t_items (pipeline srt0 P E)) = map pg_ping_id P
    \<and> it_global_pop i = 0
    \<and> 0 \<le> it_global_pop_norm i \<and> it_global_pop_norm i \<le> 1
    \<and> 0 < it_freshness i \<and> it_freshness i \<le> 1
    \<and> i \<in> set (remaining (pipeline srt0 P E) E uid)
    \<and> (int (length P) \<le> k \<longrightarrow>
         pg_ping_id (it_ping i)
           \<in> set (map rc_ping_id (recommend_for_user srt (pipeline srt0 P E) uid k alpha beta gamma delta)))"
proof -
  let ?T = "pipeline srt0 P E"
  let ?pid = "pg_ping_id (it_ping i)"
  have i': "i \<in> set (items (fill_duration P) (ping_global srt0 (user_ping (inter_tbl (fill_duration P) E))))"
    using assms(3) by (simp only: t_items_pipeline)
  have "?pid \<notin> set (map gl_ping_id (ping_global srt0 (user_ping (inter_tbl (fill_duration P) E))))"
    unfolding ping_global_ids [OF assms(1)] by (rule assms(4))
  then have pop: "it_global_pop i = 0"
    unfolding item_global_pop [OF i'] by (rule global_pop_absent)
  have norm: "0 \<le> it_global_pop_norm i \<and> it_global_pop_norm i \<le> 1"
    using i' by (rule item_norm_bounds)
  have fresh: "0 < it_freshness i \<and> it_freshness i \<le> 1"
    using item_age_props [OF assms(3)] freshness_range by simp
  have notseen: "?pid \<notin> interacted E uid"
    using assms(4) by (auto simp: interacted_def)
  with assms(3) have rem: "i \<in> set (remaining ?T E uid)"
    by (simp add: remaining_def)
  have rec: "?pid \<in> set (map rc_ping_id (recommend_for_user srt ?T uid k alpha beta gamma delta))"
    if "int (length P) \<le> k"
  proof -
    let ?un = "unseen ?T uid alpha beta gamma delta"
    have "length ?un \<le> length (scored ?T uid alpha beta gamma delta)"
      by (simp add: unseen_def)
    also have "\<dots> = length (t_items ?T)" by (simp add: scored_def)
    also have "\<dots> = length P" using t_items_ids [of srt0 P E] by (metis length_map)
    finally have "int (length (srt ?un)) \<le> k"
      using that by (simp add: sorts_descending_length [OF assms(2)])
    then have "top_rows srt ?T uid k alpha beta gamma delta = srt ?un"
      by (simp add: top_rows_def head_all)
    then have "set (map sc_item (top_rows srt ?T uid k alpha beta gamma delta)) = set (map sc_item ?un)"
      using sorts_descending_set [OF assms(2)] by simp
    also have "\<dots> = set (remaining ?T E uid)" by (simp only: unseen_items)
    finally have "i \<in> set (map sc_item (top_rows srt ?T uid k alpha beta gamma delta))"
      using rem by simp
    then show ?thesis unfolding rec_ping_ids by auto
  qed
  show ?thesis using t_items_ids pop norm fresh rem rec by simp
qed

theorem uninteracted_item_eligible_witness:
  "sorts_descending gl_global_engagement (stable_sort_desc gl_global_engagement)
   \<and> sorts_descending sc_score (stable_sort_desc sc_score)
   \<and> ex_item_p3 \<in> set (t_items ex_tables)
   \<and> pg_ping_id (it_ping ex_item_p3) \<notin> set (map ev_ping_id ex_events)
   \<and> durations_positive ex_pings
   \<and> it_global_pop ex_item_p3 = 0
   \<and> ex_item_p3 \<in> set (remaining ex_tables ex_events ''u1'')
   \<and> pg_ping_id (it_ping ex_item_p3)
       \<in> set (map rc_ping_id (recommend_for_user (stable_sort_desc sc_score) ex_tables ''u1'' 3 0.5 0.25 0.15 0.1))"
proof -
  have m: "ex_item_p3 \<in> set (t_items (pipeline (stable_sort_desc gl_global_engagement) ex_pings ex_events))"
    using ex_items by (simp add: ex_tables_def)
  have e: "pg_ping_id (it_ping ex_item_p3) \<notin> set (map ev_ping_id ex_events)"
    by (simp add: ex_item_p3_def ex_events_def)
  have k: "int (length ex_pings) \<le> 3" by (simp add: ex_pings_def)
  from uninteracted_item_eligible [OF stable_sort_desc_ok stable_sort_desc_ok m e ex_durations,
      where uid = "''u1''" and k = 3 and alpha = "0.5" and beta = "0.25" and gamma = "0.15"
        and delta = "0.1"] k
  show ?thesis
    unfolding ex_tables_def [symmetric]
    using m e stable_sort_desc_ok [of sc_score] stable_sort_desc_ok [of gl_global_engagement]
      ex_durations
    by (simp add: ex_tables_def)
qed

section \<open>User affinities: properties\<close>

lemma filter_eq_distinct:
  "distinct xs \<Longrightarrow> filter (\<lambda>k. k = u) xs = (if u \<in> set xs then [u] else [])"
  by (induction xs) auto

lemma group_size_lookup:
  "filter (\<lambda>y. fst y = u) (group_size ks)
     = (if u \<in> set ks then [(u, length (filter (\<lambda>x. x = u) ks))] else [])"
proof -
  have "filter (\<lambda>y. fst y = u) (group_size ks)
      = map (\<lambda>k. (k, length (filter (\<lambda>x. x = k) ks))) (filter (\<lambda>k. k = u) (sort (remdups ks)))"
    by (simp add: group_size_def filter_map comp_def)
  also have "filter (\<lambda>k. k = u) (sort (remdups ks)) = (if u \<in> set ks then [u] else [])"
    by (simp add: filter_eq_distinct)
  finally show ?thesis by simp
qed

lemma count_sum_set:
  "finite S \<Longrightarrow> (\<Sum>k\<in>S. length (filter (\<lambda>x. x = k) ks)) = length (filter (\<lambda>x. x \<in> S) ks)"
proof (induction ks)
  case Nil
  then show ?case by simp
next
  case (Cons a ks)
  have "(\<Sum>k\<in>S. length (filter (\<lambda>x. x = k) (a # ks)))
      = (\<Sum>k\<in>S. (if a = k then 1 else 0) + length (filter (\<lambda>x. x = k) ks))"
    by (rule sum.cong) auto
  also have "\<dots> = (\<Sum>k\<in>S. if a = k then 1 else 0) + (\<Sum>k\<in>S. length (filter (\<lambda>x. x = k) ks))"
    by (simp add: sum.distrib)
  also have "(\<Sum>k\<in>S. if a = k then 1 else 0) = (if a \<in> S then 1 else (0::nat))"
    using Cons.prems by simp
  finally show ?case using Cons by simp
qed

lemma count_sum_distinct:
  "(\<Sum>k\<leftarrow>filter P (sort (remdups ks)). length (filter (\<lambda>x. x = k) ks)) = length (filter P ks)"
proof -
  let ?ys = "filter P (sort (remdups ks))"
  have d: "distinct ?ys" by simp
  have s: "set ?ys = set (filter P ks)" by auto
  have "(\<Sum>k\<leftarrow>?ys. length (filter (\<lambda>x. x = k) ks)) = (\<Sum>k\<in>set ?ys. length (filter (\<lambda>x. x = k) ks))"
    using d by (rule sum_list_distinct_conv_sum_set)
  also have "\<dots> = length (filter (\<lambda>x. x \<in> set (filter P ks)) ks)"
    unfolding s by (rule count_sum_set) simp
  also have "filter (\<lambda>x. x \<in> set (filter P ks)) ks = filter P ks"
    by (rule filter_cong) auto
  finally show ?thesis .
qed

lemma merge_total_Cons:
  "affinity_sum (merge_total (x # xs) totals) u
     = (if fst (fst x) = u
        then (\<Sum>y\<leftarrow>filter (\<lambda>y. fst y = u) totals. real (snd x) / real (snd y)) else 0)
       + affinity_sum (merge_total xs totals) u"
  by (cases x, cases "fst x")
     (simp add: affinity_sum_def merge_total_def filter_map comp_def case_prod_unfold)

lemma merge_total_sum:
  "affinity_sum (merge_total counts totals) u
     = (\<Sum>x\<leftarrow>counts. if fst (fst x) = u
          then (\<Sum>y\<leftarrow>filter (\<lambda>y. fst y = u) totals. real (snd x) / real (snd y)) else 0)"
proof (induction counts)
  case Nil
  show ?case by (simp add: affinity_sum_def merge_total_def)
next
  case (Cons x xs)
  show ?case unfolding merge_total_Cons Cons.IH by simp
qed

lemma sum_list_all_zero: "(\<And>x. x \<in> set xs \<Longrightarrow> f x = (0::real)) \<Longrightarrow> sum_list (map f xs) = 0"
  by (induction xs) auto

lemma sum_list_div_const: "(\<Sum>x\<leftarrow>xs. f x / c) = (\<Sum>x\<leftarrow>xs. f x) / (c::real)"
  by (induction xs) (simp_all add: add_divide_distrib)

lemma real_sum_list: "real (\<Sum>x\<leftarrow>xs. f x) = (\<Sum>x\<leftarrow>xs. real (f x))"
  by (induction xs) simp_all

lemma affinity_sum_groups:
  "affinity_sum (merge_total (group_size K) (group_size U)) u
     = (if u \<in> set U
        then real (length (filter (\<lambda>k. fst k = u) K)) / real (length (filter (\<lambda>x. x = u) U))
        else 0)"
proof (cases "u \<in> set U")
  case False
  then show ?thesis unfolding merge_total_sum group_size_lookup
    by (simp add: sum_list_all_zero)
next
  case True
  let ?t = "real (length (filter (\<lambda>x. x = u) U))"
  have "affinity_sum (merge_total (group_size K) (group_size U)) u
      = (\<Sum>x\<leftarrow>group_size K. if fst (fst x) = u then real (snd x) / ?t else 0)"
    unfolding merge_total_sum group_size_lookup using True by (simp cong: if_cong)
  also have "\<dots> = (\<Sum>k\<leftarrow>sort (remdups K). if fst k = u then real (length (filter (\<lambda>x. x = k) K)) / ?t else 0)"
    by (simp add: group_size_def comp_def cong: if_cong)
  also have "\<dots> = (\<Sum>k\<leftarrow>filter (\<lambda>k. fst k = u) (sort (remdups K)). real (length (filter (\<lambda>x. x = k) K)) / ?t)"
    by (simp add: sum_list_map_filter')
  also have "\<dots> = (\<Sum>k\<leftarrow>filter (\<lambda>k. fst k = u) (sort (remdups K)). real (length (filter (\<lambda>x. x = k) K))) / ?t"
    by (rule sum_list_div_const)
  also have "(\<Sum>k\<leftarrow>filter (\<lambda>k. fst k = u) (sort (remdups K)). real (length (filter (\<lambda>x. x = k) K)))
      = real (\<Sum>k\<leftarrow>filter (\<lambda>k. fst k = u) (sort (remdups K)). length (filter (\<lambda>x. x = k) K))"
    by (simp only: real_sum_list)
  also have "\<dots> = real (length (filter (\<lambda>k. fst k = u) K))"
    by (simp only: count_sum_distinct)
  finally show ?thesis using True by simp
qed

lemma known_pairs_count:
  "length (filter (\<lambda>k. fst k = u) (known_pairs col im))
     = length (filter (\<lambda>r. col r \<noteq> None) (user_rows im u))"
  by (induction im) (auto simp: known_pairs_def user_rows_def split: option.splits)

lemma user_rows_count:
  "length (filter (\<lambda>x. x = u) (map (\<lambda>r. in_user_id (im_inter r)) im)) = length (user_rows im u)"
  by (induction im) (auto simp: user_rows_def)

lemma user_rows_empty:
  "user_rows im u = [] \<longleftrightarrow> u \<notin> set (map (\<lambda>r. in_user_id (im_inter r)) im)"
  by (auto simp: user_rows_def filter_empty_conv)

lemma affinity_sum_table:
  "affinity_sum (merge_total (group_size (known_pairs col im)) (user_total im)) u
     = (if user_rows im u = [] then 0
        else real (length (filter (\<lambda>r. col r \<noteq> None) (user_rows im u))) / real (length (user_rows im u)))"
  unfolding user_total_def affinity_sum_groups known_pairs_count user_rows_count user_rows_empty
  by simp

lemma merge_meta_nonempty: "merge_meta its x \<noteq> []"
  by (cases "filter (\<lambda>i. pg_ping_id (it_ping i) = in_ping_id x) its") (simp_all add: merge_meta_def)

lemma int_meta_users:
  "set (map (\<lambda>r. in_user_id (im_inter r)) (int_meta its rows)) = set (map in_user_id rows)"
proof (intro set_eqI iffI)
  fix u assume "u \<in> set (map (\<lambda>r. in_user_id (im_inter r)) (int_meta its rows))"
  then obtain r where "r \<in> set (int_meta its rows)" "u = in_user_id (im_inter r)" by auto
  with int_meta_inter [of r its rows] show "u \<in> set (map in_user_id rows)" by auto
next
  fix u assume "u \<in> set (map in_user_id rows)"
  then obtain x where x: "x \<in> set rows" "u = in_user_id x" by auto
  obtain r where r: "r \<in> set (merge_meta its x)"
    using merge_meta_nonempty [of its x] by (cases "merge_meta its x") auto
  with x have "r \<in> set (int_meta its rows)" by (auto simp: int_meta_def)
  moreover from r have "im_inter r = x" by (rule merge_meta_inter)
  ultimately show "u \<in> set (map (\<lambda>r. in_user_id (im_inter r)) (int_meta its rows))"
    using x by force
qed

lemma t_int_meta_pipeline:
  "t_int_meta (pipeline srt P E) = int_meta (t_items (pipeline srt P E)) (inter_tbl (fill_duration P) E)"
  by (simp add: pipeline_def Let_def)

lemma pipeline_user_rows_empty:
  "user_rows (t_int_meta (pipeline srt0 P E)) u = [] \<longleftrightarrow> u \<notin> set (map ev_user_id E)"
  unfolding user_rows_empty t_int_meta_pipeline int_meta_users inter_users ..

lemma merge_meta_unmatched:
  assumes "r \<in> set (merge_meta its x)" and "in_ping_id x \<notin> set (map (\<lambda>i. pg_ping_id (it_ping i)) its)"
  shows "im_category r = None \<and> im_creator_id r = None"
proof -
  from assms(2) have "\<forall>i\<in>set its. pg_ping_id (it_ping i) \<noteq> in_ping_id x"
    by force
  then have "filter (\<lambda>i. pg_ping_id (it_ping i) = in_ping_id x) its = []"
    by (simp add: filter_empty_conv)
  with assms(1) show ?thesis by (simp add: merge_meta_def)
qed

lemma int_meta_unmatched:
  assumes "r \<in> set (t_int_meta (pipeline srt0 P E))"
    and "in_ping_id (im_inter r) \<notin> set (map pg_ping_id P)"
  shows "im_category r = None \<and> im_creator_id r = None"
proof -
  from assms(1) obtain x where x: "r \<in> set (merge_meta (t_items (pipeline srt0 P E)) x)"
    unfolding t_int_meta_pipeline int_meta_def by auto
  then have "im_inter r = x" by (rule merge_meta_inter)
  with assms(2) have "in_ping_id x \<notin> set (map (\<lambda>i. pg_ping_id (it_ping i)) (t_items (pipeline srt0 P E)))"
    unfolding t_items_ids by simp
  with x show ?thesis by (rule merge_meta_unmatched)
qed

lemma length_filter_eq_iff: "length (filter Q xs) = length xs \<longleftrightarrow> list_all Q xs"
proof (induction xs)
  case Nil
  show ?case by simp
next
  case (Cons a xs)
  have "length (filter Q xs) \<le> length xs" by (rule length_filter_le)
  then have "length (filter Q xs) \<noteq> Suc (length xs)" by linarith
  with Cons show ?case by auto
qed

lemma ratio_one_iff:
  assumes "rows \<noteq> []"
  shows "real (length (filter Q rows)) / real (length rows) = 1 \<longleftrightarrow> list_all Q rows"
    and "\<not> list_all Q rows \<Longrightarrow> real (length (filter Q rows)) / real (length rows) < 1"
proof -
  have pos: "0 < length rows" using assms by simp
  have iff: "length (filter Q rows) = length rows \<longleftrightarrow> list_all Q rows"
    by (rule length_filter_eq_iff)
  show "real (length (filter Q rows)) / real (length rows) = 1 \<longleftrightarrow> list_all Q rows"
    using pos iff by (auto simp: eq_commute [of "length rows"])
  assume "\<not> list_all Q rows"
  with iff have "length (filter Q rows) < length rows"
    using length_filter_le [of Q rows] by linarith
  then show "real (length (filter Q rows)) / real (length rows) < 1"
    using pos by simp
qed

text \<open>
  Claim C1, as the code has it. \<open>user_total\<close> counts every row of \<open>int_meta\<close> of a
  user, while the rows whose category (creator) is NaN, those of the events without a
  catalog match among them, are dropped from the counts. For a user with at least one
  event the category affinities therefore sum to the share of the user's rows with a
  known category: \<open>1\<close> exactly when all of them have one, less than \<open>1\<close> otherwise;
  likewise for creators. A user has no row in \<open>int_meta\<close> exactly when the user has no
  event, and then the user is absent from both affinity tables.
\<close>

theorem affinity_sums:
  "(user_rows (t_int_meta (pipeline srt0 P E)) u \<noteq> [] \<longrightarrow>
      affinity_sum (t_user_cat (pipeline srt0 P E)) u
        = real (length (filter (\<lambda>r. im_category r \<noteq> None) (user_rows (t_int_meta (pipeline srt0 P E)) u)))
            / real (length (user_rows (t_int_meta (pipeline srt0 P E)) u))
    \<and> affinity_sum (t_user_creator (pipeline srt0 P E)) u
        = real (length (filter (\<lambda>r. im_creator_id r \<noteq> None) (user_rows (t_int_meta (pipeline srt0 P E)) u)))
            / real (length (user_rows (t_int_meta (pipeline srt0 P E)) u))
    \<and> (affinity_sum (t_user_cat (pipeline srt0 P E)) u = 1
         \<longleftrightarrow> list_all (\<lambda>r. im_category r \<noteq> None) (user_rows (t_int_meta (pipeline srt0 P E)) u))
    \<and> (affinity_sum (t_user_creator (pipeline srt0 P E)) u = 1
         \<longleftrightarrow> list_all (\<lambda>r. im_creator_id r \<noteq> None) (user_rows (t_int_meta (pipeline srt0 P E)) u))
    \<and> (\<not> list_all (\<lambda>r. im_category r \<noteq> None) (user_rows (t_int_meta (pipeline srt0 P E)) u)
         \<longrightarrow> affinity_sum (t_user_cat (pipeline srt0 P E)) u < 1)
    \<and> (\<not> list_all (\<lambda>r. im_creator_id r \<noteq> None) (user_rows (t_int_meta (pipeline srt0 P E)) u)
         \<longrightarrow> affinity_sum (t_user_creator (pipeline srt0 P E)) u < 1))
   \<and> (\<forall>r \<in> set (t_int_meta (pipeline srt0 P E)).
         in_ping_id (im_inter r) \<notin> set (map pg_ping_id P) \<longrightarrow> im_category r = None \<and> im_creator_id r = None)
   \<and> (user_rows (t_int_meta (pipeline srt0 P E)) u = [] \<longleftrightarrow> u \<notin> set (map ev_user_id E))
   \<and> (u \<notin> set (map ev_user_id E) \<longrightarrow>
         filter (\<lambda>r. af_user_id r = u) (t_user_cat (pipeline srt0 P E)) = []
       \<and> filter (\<lambda>r. af_user_id r = u) (t_user_creator (pipeline srt0 P E)) = [])"
proof -
  let ?T = "pipeline srt0 P E"
  let ?rows = "user_rows (t_int_meta ?T) u"
  have cat: "affinity_sum (t_user_cat ?T) u
      = (if ?rows = [] then 0
         else real (length (filter (\<lambda>r. im_category r \<noteq> None) ?rows)) / real (length ?rows))"
    unfolding t_user_cat_pipeline user_cat_def t_int_meta_pipeline by (rule affinity_sum_table)
  have cre: "affinity_sum (t_user_creator ?T) u
      = (if ?rows = [] then 0
         else real (length (filter (\<lambda>r. im_creator_id r \<noteq> None) ?rows)) / real (length ?rows))"
    unfolding t_user_creator_pipeline user_creator_def t_int_meta_pipeline by (rule affinity_sum_table)
  have part1: "?rows \<noteq> [] \<longrightarrow>
      affinity_sum (t_user_cat ?T) u
        = real (length (filter (\<lambda>r. im_category r \<noteq> None) ?rows)) / real (length ?rows)
    \<and> affinity_sum (t_user_creator ?T) u
        = real (length (filter (\<lambda>r. im_creator_id r \<noteq> None) ?rows)) / real (length ?rows)
    \<and> (affinity_sum (t_user_cat ?T) u = 1 \<longleftrightarrow> list_all (\<lambda>r. im_category r \<noteq> None) ?rows)
    \<and> (affinity_sum (t_user_creator ?T) u = 1 \<longleftrightarrow> list_all (\<lambda>r. im_creator_id r \<noteq> None) ?rows)
    \<and> (\<not> list_all (\<lambda>r. im_category r \<noteq> None) ?rows \<longrightarrow> affinity_sum (t_user_cat ?T) u < 1)
    \<and> (\<not> list_all (\<lambda>r. im_creator_id r \<noteq> None) ?rows \<longrightarrow> affinity_sum (t_user_creator ?T) u < 1)"
  proof
    assume ne: "?rows \<noteq> []"
    show "affinity_sum (t_user_cat ?T) u
        = real (length (filter (\<lambda>r. im_category r \<noteq> None) ?rows)) / real (length ?rows)
    \<and> affinity_sum (t_user_creator ?T) u
        = real (length (filter (\<lambda>r. im_creator_id r \<noteq> None) ?rows)) / real (length ?rows)
    \<and> (affinity_sum (t_user_cat ?T) u = 1 \<longleftrightarrow> list_all (\<lambda>r. im_category r \<noteq> None) ?rows)
    \<and> (affinity_sum (t_user_creator ?T) u = 1 \<longleftrightarrow> list_all (\<lambda>r. im_creator_id r \<noteq> None) ?rows)
    \<and> (\<not> list_all (\<lambda>r. im_category r \<noteq> None) ?rows \<longrightarrow> affinity_sum (t_user_cat ?T) u < 1)
    \<and> (\<not> list_all (\<lambda>r. im_creator_id r \<noteq> None) ?rows \<longrightarrow> affinity_sum (t_user_creator ?T) u < 1)"
      unfolding cat cre
      using ne ratio_one_iff [OF ne, of "\<lambda>r. im_category r \<noteq> None"]
        ratio_one_iff [OF ne, of "\<lambda>r. im_creator_id r \<noteq> None"]
      by simp
  qed
  have part2: "\<forall>r \<in> set (t_int_meta ?T).
         in_ping_id (im_inter r) \<notin> set (map pg_ping_id P) \<longrightarrow> im_category r = None \<and> im_creator_id r = None"
    using int_meta_unmatched by blast
  have part3: "?rows = [] \<longleftrightarrow> u \<notin> set (map ev_user_id E)"
    by (rule pipeline_user_rows_empty)
  have part4: "u \<notin> set (map ev_user_id E) \<longrightarrow>
         filter (\<lambda>r. af_user_id r = u) (t_user_cat ?T) = []
       \<and> filter (\<lambda>r. af_user_id r = u) (t_user_creator ?T) = []"
  proof
    assume a: "u \<notin> set (map ev_user_id E)"
    have "\<forall>r \<in> set (t_user_cat ?T). af_user_id r \<noteq> u"
      unfolding t_user_cat_pipeline user_cat_def using affinity_table_user a by metis
    moreover have "\<forall>r \<in> set (t_user_creator ?T). af_user_id r \<noteq> u"
      unfolding t_user_creator_pipeline user_creator_def using affinity_table_user a by metis
    ultimately show "filter (\<lambda>r. af_user_id r = u) (t_user_cat ?T) = []
       \<and> filter (\<lambda>r. af_user_id r = u) (t_user_creator ?T) = []"
      by (simp add: filter_empty_conv)
  qed
  from part1 part2 part3 part4 show ?thesis by blast
qed

theorem affinity_sums_witness:
  "user_rows (t_int_meta ex_tables) ''u2'' \<noteq> []
   \<and> list_all (\<lambda>r. im_category r \<noteq> None) (user_rows (t_int_meta ex_tables) ''u2'')
   \<and> affinity_sum (t_user_cat ex_tables) ''u2'' = 1
   \<and> affinity_sum (t_user_creator ex_tables) ''u2'' = 1
   \<and> affinity_sum (t_user_cat ex_tables) ''u1'' = real 1 / real 2
   \<and> affinity_sum (t_user_cat ex_tables) ''u1'' < 1
   \<and> ''u3'' \<notin> set (map ev_user_id ex_events)
   \<and> filter (\<lambda>r. af_user_id r = ''u3'') (t_user_cat ex_tables) = []
   \<and> filter (\<lambda>r. af_user_id r = ''u3'') (t_user_creator ex_tables) = []"
proof -
  have r2: "map (\<lambda>r. (im_category r, im_creator_id r)) (user_rows (t_int_meta ex_tables) ''u2'')
      = [(Some ''b'', Some ''c2'')]"
    by code_simp
  have r1: "map (\<lambda>r. (im_category r, im_creator_id r)) (user_rows (t_int_meta ex_tables) ''u1'')
      = [(Some ''a'', Some ''c1''), (None, None)]"
    by code_simp
  from r2 have ne2: "user_rows (t_int_meta ex_tables) ''u2'' \<noteq> []" by auto
  from r2 have all2: "list_all (\<lambda>r. im_category r \<noteq> None) (user_rows (t_int_meta ex_tables) ''u2'')"
    "list_all (\<lambda>r. im_creator_id r \<noteq> None) (user_rows (t_int_meta ex_tables) ''u2'')"
    by (auto simp: map_eq_Cons_conv)
  from r1 have ne1: "user_rows (t_int_meta ex_tables) ''u1'' \<noteq> []" by auto
  from r1 have n1: "length (user_rows (t_int_meta ex_tables) ''u1'') = 2"
    "length (filter (\<lambda>r. im_category r \<noteq> None) (user_rows (t_int_meta ex_tables) ''u1'')) = 1"
    "\<not> list_all (\<lambda>r. im_category r \<noteq> None) (user_rows (t_int_meta ex_tables) ''u1'')"
    by (auto simp: map_eq_Cons_conv)
  have u3: "''u3'' \<notin> set (map ev_user_id ex_events)" by (simp add: ex_events_def)
  note T2 = affinity_sums [of "stable_sort_desc gl_global_engagement" ex_pings ex_events "''u2''",
      folded ex_tables_def]
  note T1 = affinity_sums [of "stable_sort_desc gl_global_engagement" ex_pings ex_events "''u1''",
      folded ex_tables_def]
  note T3 = affinity_sums [of "stable_sort_desc gl_global_engagement" ex_pings ex_events "''u3''",
      folded ex_tables_def]
  from T2 ne2 all2 have c2: "affinity_sum (t_user_cat ex_tables) ''u2'' = 1"
    "affinity_sum (t_user_creator ex_tables) ''u2'' = 1"
    by blast+
  from T1 ne1 have "affinity_sum (t_user_cat ex_tables) ''u1''
      = real (length (filter (\<lambda>r. im_category r \<noteq> None) (user_rows (t_int_meta ex_tables) ''u1'')))
          / real (length (user_rows (t_int_meta ex_tables) ''u1''))"
    by blast
  then have c1: "affinity_sum (t_user_cat ex_tables) ''u1'' = real 1 / real 2"
    unfolding n1 .
  from T1 ne1 n1(3) have lt: "affinity_sum (t_user_cat ex_tables) ''u1'' < 1"
    by blast
  from T3 u3 have c3: "filter (\<lambda>r. af_user_id r = ''u3'') (t_user_cat ex_tables) = []"
    "filter (\<lambda>r. af_user_id r = ''u3'') (t_user_creator ex_tables) = []"
    by blast+
  from ne2 all2(1) c2 c1 lt u3 c3 show ?thesis by blast
qed

text \<open>
  Claim C1, as the spec states it, fails: user \<open>u1\<close> has a catalog-matched event (on
  \<open>p1\<close>) and one without a match (on \<open>p9\<close>), and both affinity sums are \<open>1/2\<close>.
\<close>

theorem affinity_sum_counterexample:
  "ev_user_id (ex_events ! 0) = ''u1''
   \<and> ev_ping_id (ex_events ! 0) \<in> set (map pg_ping_id ex_pings)
   \<and> affinity_sum (t_user_cat ex_tables) ''u1'' = 1 / 2
   \<and> affinity_sum (t_user_creator ex_tables) ''u1'' = 1 / 2
   \<and> affinity_sum (t_user_cat ex_tables) ''u1'' \<noteq> 1"
proof -
  have a: "affinity_sum (t_user_cat ex_tables) ''u1'' = 1 / 2" by code_simp
  have b: "affinity_sum (t_user_creator ex_tables) ''u1'' = 1 / 2" by code_simp
  show ?thesis
    unfolding a b by (simp add: ex_events_def ex_pings_def)
qed

end
